theory Spec2Isabelle
  imports Main "HOL-Library.Word" "HOL-Library.Multiset"
begin

section \<open>The dotmesh operator: data model\<close>

text \<open>
  The operator (package main of cmd/operator) reads a ConfigMap once, then reconciles the
  cluster in passes: \<open>process\<close> labels nodes, classifies the dotmesh pods, deletes the
  unwanted ones under a rate limit and creates pods on the nodes that have none.
  The Kubernetes client is the environment: every call of the client is recorded in a
  trace, and its answer is given by a parameter.
\<close>

subsection \<open>Go values\<close>

text \<open>
  A Go \<open>map[string]string\<close> is a partial function; the nil map is \<open>None\<close>. Reading
  a nil map finds nothing, assigning into it panics.
\<close>

type_synonym gomap = "(string \<rightharpoonup> string) option"

datatype panic = AssignmentToNilMap

datatype error = Error string

definition index :: "gomap \<Rightarrow> string \<Rightarrow> string option" where
  "index m key = (case m of None \<Rightarrow> None | Some d \<Rightarrow> d key)"

definition indexOrZero :: "gomap \<Rightarrow> string \<Rightarrow> string" where
  "indexOrZero m key = (case index m key of None \<Rightarrow> [] | Some v \<Rightarrow> v)"

definition assign :: "gomap \<Rightarrow> string \<Rightarrow> string \<Rightarrow> panic + gomap" where
  "assign m key v = (case m of None \<Rightarrow> Inl AssignmentToNilMap | Some d \<Rightarrow> Inr (Some (d(key \<mapsto> v))))"

subsection \<open>Constants of the operator\<close>

definition DOTMESH_NAMESPACE :: string where "DOTMESH_NAMESPACE = ''dotmesh''"
definition DOTMESH_CONFIG_MAP :: string where "DOTMESH_CONFIG_MAP = ''configuration''"
definition DOTMESH_NODE_LABEL :: string where "DOTMESH_NODE_LABEL = ''dotmesh.io/node''"
definition DOTMESH_POD_ROLE_LABEL :: string where "DOTMESH_POD_ROLE_LABEL = ''dotmesh.io/role''"
definition DOTMESH_ROLE_SERVER :: string where "DOTMESH_ROLE_SERVER = ''dotmesh-server''"

definition CONFIG_NODE_SELECTOR :: string where "CONFIG_NODE_SELECTOR = ''nodeSelector''"
definition CONFIG_UPGRADES_URL :: string where "CONFIG_UPGRADES_URL = ''upgradesUrl''"
definition CONFIG_UPGRADES_INTERVAL_SECONDS :: string where
  "CONFIG_UPGRADES_INTERVAL_SECONDS = ''upgradesIntervalSeconds''"
definition CONFIG_FLEXVOLUME_DRIVER_DIR :: string where
  "CONFIG_FLEXVOLUME_DRIVER_DIR = ''flexvolumeDriverDir''"
definition CONFIG_POOL_NAME :: string where "CONFIG_POOL_NAME = ''poolName''"
definition CONFIG_LOG_ADDRESS :: string where "CONFIG_LOG_ADDRESS = ''logAddress''"
definition CONFIG_MODE :: string where "CONFIG_MODE = ''storageMode''"
definition CONFIG_MODE_LOCAL :: string where "CONFIG_MODE_LOCAL = ''local''"
definition CONFIG_LOCAL_POOL_SIZE_PER_NODE :: string where
  "CONFIG_LOCAL_POOL_SIZE_PER_NODE = ''local.poolSizePerNode''"
definition CONFIG_LOCAL_POOL_LOCATION :: string where
  "CONFIG_LOCAL_POOL_LOCATION = ''local.poolLocation''"

text \<open>The phases of a pod and the other string constants of k8s.io/api/core/v1 in use.\<close>

definition PodRunning :: string where "PodRunning = ''Running''"
definition PodFailed :: string where "PodFailed = ''Failed''"
definition TaintEffectNoSchedule :: string where "TaintEffectNoSchedule = ''NoSchedule''"
definition TolerationOpExists :: string where "TolerationOpExists = ''Exists''"
definition ProtocolTCP :: string where "ProtocolTCP = ''TCP''"
definition PullAlways :: string where "PullAlways = ''Always''"
definition RestartPolicyNever :: string where "RestartPolicyNever = ''Never''"
definition ResourceCPU :: string where "ResourceCPU = ''cpu''"

subsection \<open>Kubernetes objects\<close>

text \<open>
  The fields are those the operator reads or writes; a field the pod literal of
  \<open>process\<close> leaves out has Go's zero value.
\<close>

record ObjectMeta =
  Name :: string
  Namespace :: string
  Labels :: gomap
  Annotations :: gomap

record Node =
  Node_ObjectMeta :: ObjectMeta

record Toleration =
  Effect :: string
  Operator :: string

record SecurityContext =
  Privileged :: "bool option"

record ContainerPort =
  Port_Name :: string
  Port_ContainerPort :: "32 word"
  Protocol :: string

record VolumeMount =
  Mount_Name :: string
  MountPath :: string

record ObjectFieldSelector =
  APIVersion :: string
  FieldPath :: string

record EnvVar =
  Env_Name :: string
  Env_Value :: string
  ValueFrom :: "ObjectFieldSelector option"

datatype IntOrString = IntVal "32 word" | StrVal string

record HTTPGetAction =
  Path :: string
  Port :: IntOrString

record Probe =
  HTTPGet :: "HTTPGetAction option"
  InitialDelaySeconds :: "32 word"

record Container =
  Container_Name :: string
  Container_Image :: string
  Command :: "string list"
  Container_SecurityContext :: "SecurityContext option"
  Ports :: "ContainerPort list"
  VolumeMounts :: "VolumeMount list"
  Env :: "EnvVar list"
  ImagePullPolicy :: string
  LivenessProbe :: "Probe option"
  Requests :: "string \<rightharpoonup> string"

datatype VolumeSource = HostPath string | EmptyDir | Secret string

record Volume =
  Volume_Name :: string
  Volume_Source :: VolumeSource

record PodSpec =
  HostPID :: bool
  NodeSelector :: gomap
  Tolerations :: "Toleration list"
  InitContainers :: "Container list"
  Containers :: "Container list"
  RestartPolicy :: string
  ServiceAccountName :: string
  Volumes :: "Volume list"
  NodeName :: string

record PodStatus =
  Phase :: string

record Pod =
  Pod_ObjectMeta :: ObjectMeta
  Spec :: PodSpec
  Status :: PodStatus

record ConfigMap =
  Data :: gomap

record dotmeshController =
  updatesNeeded :: bool
  config :: ConfigMap

section \<open>Config resolver\<close>

text \<open>
  \<open>provideDefault\<close> writes the default under a key the map lacks. The write is an
  assignment into the map, which panics when the map is nil.
\<close>

definition provideDefault :: "gomap \<Rightarrow> string \<Rightarrow> string \<Rightarrow> panic + gomap" where
  "provideDefault m key deflt =
     (case index m key of
        None \<Rightarrow> assign m key deflt
      | Some v \<Rightarrow> Inr m)"

text \<open>The calls of \<open>provideDefault\<close> in \<open>newDotmeshController\<close>, in their order.\<close>

definition defaults :: "(string \<times> string) list" where
  "defaults =
     [(CONFIG_NODE_SELECTOR, ''''),
      (CONFIG_UPGRADES_URL, ''https://checkpoint.dotmesh.com/''),
      (CONFIG_UPGRADES_INTERVAL_SECONDS, ''14400''),
      (CONFIG_FLEXVOLUME_DRIVER_DIR, ''/usr/libexec/kubernetes/kubelet-plugins/volume/exec''),
      (CONFIG_POOL_NAME, ''pool''),
      (CONFIG_LOG_ADDRESS, ''''),
      (CONFIG_MODE, CONFIG_MODE_LOCAL),
      (CONFIG_LOCAL_POOL_SIZE_PER_NODE, ''10G''),
      (CONFIG_LOCAL_POOL_LOCATION, ''/var/lib/dotmesh'')]"

fun provideDefaults :: "gomap \<Rightarrow> (string \<times> string) list \<Rightarrow> panic + gomap" where
  "provideDefaults m [] = Inr m"
| "provideDefaults m ((key, deflt) # rest) =
     (case provideDefault m key deflt of
        Inl p \<Rightarrow> Inl p
      | Inr m' \<Rightarrow> provideDefaults m' rest)"

text \<open>
  The argument is the answer of the ConfigMap fetch. On an error the controller starts
  from a fresh empty map; otherwise from a deep copy of the fetched ConfigMap, whose
  \<open>Data\<close> is nil when the ConfigMap has no data.
\<close>

definition newDotmeshController :: "error + ConfigMap \<Rightarrow> panic + dotmeshController" where
  "newDotmeshController fetched =
     (let cm = (case fetched of
                  Inl err \<Rightarrow> \<lparr>Data = Some Map.empty\<rparr>
                | Inr cfg \<Rightarrow> cfg)
      in case provideDefaults (Data cm) defaults of
           Inl p \<Rightarrow> Inl p
         | Inr d \<Rightarrow> Inr \<lparr>updatesNeeded = False, config = cm\<lparr>Data := d\<rparr>\<rparr>)"

section \<open>Pod factory\<close>

text \<open>
  The pod literal that \<open>process\<close> builds for an undotted node. \<open>image\<close> is
  \<open>DOTMESH_IMAGE\<close>, a variable the build system sets at link time; it is a parameter here.
\<close>

definition hostPathVolume :: "string \<Rightarrow> string \<Rightarrow> Volume" where
  "hostPathVolume name path = \<lparr>Volume_Name = name, Volume_Source = HostPath path\<rparr>"

definition envValue :: "string \<Rightarrow> string \<Rightarrow> EnvVar" where
  "envValue name v = \<lparr>Env_Name = name, Env_Value = v, ValueFrom = None\<rparr>"

definition newDotmeshEnv :: "dotmeshController \<Rightarrow> string \<Rightarrow> EnvVar list" where
  "newDotmeshEnv c DOTMESH_IMAGE =
     [\<lparr>Env_Name = ''HOSTNAME'', Env_Value = '''',
       ValueFrom = Some \<lparr>APIVersion = ''v1'', FieldPath = ''spec.nodeName''\<rparr>\<rparr>,
      envValue ''DOTMESH_ETCD_ENDPOINT''
        ''http://dotmesh-etcd-cluster-client.dotmesh.svc.cluster.local:2379'',
      envValue ''DOTMESH_DOCKER_IMAGE'' DOTMESH_IMAGE,
      envValue ''PATH''
        ''/bundled-lib/sbin:/usr/local/sbin:/usr/local/bin:/usr/sbin:/usr/bin:/sbin:/bin'',
      envValue ''LD_LIBRARY_PATH'' ''/bundled-lib/lib:/bundled-lib/usr/lib/'',
      envValue ''ALLOW_PUBLIC_REGISTRATION'' ''1'',
      envValue ''INITIAL_ADMIN_PASSWORD_FILE'' ''/secret/dotmesh-admin-password.txt'',
      envValue ''INITIAL_ADMIN_API_KEY_FILE'' ''/secret/dotmesh-api-key.txt'',
      envValue ''USE_POOL_NAME'' (indexOrZero (Data (config c)) CONFIG_POOL_NAME),
      envValue ''USE_POOL_DIR'' (indexOrZero (Data (config c)) CONFIG_LOCAL_POOL_LOCATION),
      envValue ''POOL_SIZE'' (indexOrZero (Data (config c)) CONFIG_LOCAL_POOL_SIZE_PER_NODE),
      envValue ''LOG_ADDR'' (indexOrZero (Data (config c)) CONFIG_LOG_ADDRESS),
      envValue ''DOTMESH_UPGRADES_URL'' (indexOrZero (Data (config c)) CONFIG_UPGRADES_URL),
      envValue ''DOTMESH_UPGRADES_INTERVAL_SECONDS''
        (indexOrZero (Data (config c)) CONFIG_UPGRADES_INTERVAL_SECONDS),
      envValue ''FLEXVOLUME_DRIVER_DIR''
        (indexOrZero (Data (config c)) CONFIG_FLEXVOLUME_DRIVER_DIR)]"

definition newDotmeshContainer :: "dotmeshController \<Rightarrow> string \<Rightarrow> Container" where
  "newDotmeshContainer c DOTMESH_IMAGE =
     \<lparr>Container_Name = ''dotmesh-outer'',
      Container_Image = DOTMESH_IMAGE,
      Command = [''/require_zfs.sh'', ''dotmesh-server''],
      Container_SecurityContext = Some \<lparr>Privileged = Some True\<rparr>,
      Ports = [\<lparr>Port_Name = ''dotmesh-api'', Port_ContainerPort = 32607, Protocol = ProtocolTCP\<rparr>],
      VolumeMounts =
        [\<lparr>Mount_Name = ''docker-sock'', MountPath = ''/var/run/docker.sock''\<rparr>,
         \<lparr>Mount_Name = ''run-docker'', MountPath = ''/run/docker''\<rparr>,
         \<lparr>Mount_Name = ''var-lib'', MountPath = ''/var/lib''\<rparr>,
         \<lparr>Mount_Name = ''system-lib'', MountPath = ''/system-lib/lib''\<rparr>,
         \<lparr>Mount_Name = ''dotmesh-kernel-modules'', MountPath = ''/bundled-lib''\<rparr>,
         \<lparr>Mount_Name = ''dotmesh-secret'', MountPath = ''/secret''\<rparr>,
         \<lparr>Mount_Name = ''test-pools-dir'', MountPath = ''/dotmesh-test-pools''\<rparr>],
      Env = newDotmeshEnv c DOTMESH_IMAGE,
      ImagePullPolicy = PullAlways,
      LivenessProbe =
        Some \<lparr>HTTPGet = Some \<lparr>Path = ''/status'', Port = IntVal 32607\<rparr>,
              InitialDelaySeconds = 30\<rparr>,
      Requests = [ResourceCPU \<mapsto> ''10m'']\<rparr>"

definition newDotmesh :: "dotmeshController \<Rightarrow> string \<Rightarrow> string \<Rightarrow> Pod" where
  "newDotmesh c DOTMESH_IMAGE node =
     \<lparr>Pod_ObjectMeta =
        \<lparr>Name = ''dotmesh-'' @ node,
         Namespace = ''dotmesh'',
         Labels = Some [DOTMESH_POD_ROLE_LABEL \<mapsto> DOTMESH_ROLE_SERVER],
         Annotations = Some Map.empty\<rparr>,
      Spec =
        \<lparr>HostPID = True,
         NodeSelector = Some [DOTMESH_NODE_LABEL \<mapsto> node],
         Tolerations = [\<lparr>Effect = TaintEffectNoSchedule, Operator = TolerationOpExists\<rparr>],
         InitContainers = [],
         Containers = [newDotmeshContainer c DOTMESH_IMAGE],
         RestartPolicy = RestartPolicyNever,
         ServiceAccountName = ''dotmesh'',
         Volumes =
           [hostPathVolume ''test-pools-dir'' ''/dotmesh-test-pools'',
            hostPathVolume ''run-docker'' ''/var/run/docker'',
            hostPathVolume ''docker-sock'' ''/var/run/docker.sock'',
            hostPathVolume ''var-lib'' ''/var/lib'',
            hostPathVolume ''system-lib'' ''/lib'',
            \<lparr>Volume_Name = ''dotmesh-kernel-modules'', Volume_Source = EmptyDir\<rparr>,
            \<lparr>Volume_Name = ''dotmesh-secret'', Volume_Source = Secret ''dotmesh''\<rparr>],
         NodeName = ''''\<rparr>,
      Status = \<lparr>Phase = ''''\<rparr>\<rparr>"

section \<open>The cluster API as environment\<close>

text \<open>
  The three mutating calls of the pass. The answer of the API server to a call may depend
  on the calls made before it: the environment maps the trace so far and the call to
  an error or to success (\<open>None\<close>).
\<close>

datatype DeletionPropagation = DeletePropagationOrphan | DeletePropagationBackground
  | DeletePropagationForeground

datatype api_call =
    NodesUpdate Node
  | PodsDelete string DeletionPropagation
  | PodsCreate Pod

type_synonym cluster_api = "api_call list \<Rightarrow> api_call \<Rightarrow> error option"

text \<open>
  What a pass reads from outside: the two listers over the informer caches, the API
  server, and the order in which Go's \<open>range\<close> visits the keys of the two maps it
  iterates (\<open>dotmeshesToKill\<close> and \<open>undottedNodes\<close>). Go leaves that order
  unspecified: any permutation of the keys is possible.
\<close>

record environment =
  nodeLister :: "error + Node list"
  podLister :: "error + Pod list"
  api :: cluster_api
  rangeToKill :: "string list \<Rightarrow> string list"
  rangeUndotted :: "string list \<Rightarrow> string list"

datatype outcome = Returned "error option" | Panicked panic

text \<open>What a pass did: how it ended, the API calls in order, the errors given to \<open>glog.Error\<close>.\<close>

record pass =
  outcome :: outcome
  calls :: "api_call list"
  logged :: "error list"

section \<open>The reconcile pass\<close>

subsection \<open>Labelling the nodes\<close>

text \<open>
  The first loop of \<open>process\<close>. The update is sent for a deep copy \<open>n2\<close> of the cached
  node; the cached node itself is not changed. The loop ends the pass at the first
  update that fails.
\<close>

definition relabelled :: "Node \<Rightarrow> gomap \<Rightarrow> Node" where
  "relabelled node labels = node\<lparr>Node_ObjectMeta := (Node_ObjectMeta node)\<lparr>Labels := labels\<rparr>\<rparr>"

fun labelNodes :: "cluster_api \<Rightarrow> api_call list \<Rightarrow> Node list \<Rightarrow> outcome option \<times> api_call list" where
  "labelNodes srv tr [] = (None, tr)"
| "labelNodes srv tr (node # nodes) =
     (if (case index (Labels (Node_ObjectMeta node)) DOTMESH_NODE_LABEL of
            None \<Rightarrow> True
          | Some labelName \<Rightarrow> labelName \<noteq> Name (Node_ObjectMeta node))
      then (case assign (Labels (Node_ObjectMeta node)) DOTMESH_NODE_LABEL (Name (Node_ObjectMeta node)) of
              Inl p \<Rightarrow> (Some (Panicked p), tr)
            | Inr labels \<Rightarrow>
                (case srv tr (NodesUpdate (relabelled node labels)) of
                   Some err \<Rightarrow> (Some (Returned (Some err)), tr @ [NodesUpdate (relabelled node labels)])
                 | None \<Rightarrow> labelNodes srv (tr @ [NodesUpdate (relabelled node labels)]) nodes))
      else labelNodes srv tr nodes)"

subsection \<open>Observing the nodes\<close>

text \<open>
  A Go map used as a set is the list of its keys, without duplicates. The second loop
  reads the label from the cached node, as the source does, and enters it into
  \<open>undottedNodes\<close> and \<open>validNodes\<close>; a node without the label yields the empty string.
\<close>

fun observeNodes :: "Node list \<Rightarrow> string list \<times> string list \<Rightarrow> string list \<times> string list" where
  "observeNodes [] (undotted, valid) = (undotted, valid)"
| "observeNodes (node # nodes) (undotted, valid) =
     observeNodes nodes
       (List.insert (indexOrZero (Labels (Node_ObjectMeta node)) DOTMESH_NODE_LABEL) undotted,
        List.insert (indexOrZero (Labels (Node_ObjectMeta node)) DOTMESH_NODE_LABEL) valid)"

subsection \<open>Classifying the pods\<close>

record classification =
  undottedNodes :: "string list"
  suspendedNodes :: "string list"
  dotmeshesToKill :: "string list"
  dotmeshIsRunning :: "string \<rightharpoonup> bool"
  runningPodCount :: int

definition markToKill :: "string \<Rightarrow> classification \<Rightarrow> classification" where
  "markToKill podName st = st\<lparr>dotmeshesToKill := List.insert podName (dotmeshesToKill st)\<rparr>"

definition suspend :: "string \<Rightarrow> classification \<Rightarrow> classification" where
  "suspend boundNode st = st\<lparr>suspendedNodes := List.insert boundNode (suspendedNodes st)\<rparr>"

definition recordStatus :: "string \<Rightarrow> string \<Rightarrow> classification \<Rightarrow> classification" where
  "recordStatus podName status st =
     st\<lparr>dotmeshIsRunning := (dotmeshIsRunning st)(podName \<mapsto> (status = PodRunning)),
        runningPodCount := (if status = PodRunning then runningPodCount st + 1 else runningPodCount st)\<rparr>"

text \<open>The body of the loop over the observed pods; each \<open>continue\<close> ends a branch.\<close>

definition observePod :: "string \<Rightarrow> string list \<Rightarrow> classification \<Rightarrow> Pod \<Rightarrow> classification" where
  "observePod DOTMESH_IMAGE validNodes st0 dotmesh =
     (let podName = Name (Pod_ObjectMeta dotmesh);
          status = Phase (Status dotmesh);
          st = recordStatus podName status st0
      in case index (NodeSelector (Spec dotmesh)) DOTMESH_NODE_LABEL of
           None \<Rightarrow> markToKill podName st
         | Some boundNode \<Rightarrow>
             if length (Containers (Spec dotmesh)) \<noteq> 1
             then suspend boundNode (markToKill podName st)
             else if Container_Image (Containers (Spec dotmesh) ! 0) \<noteq> DOTMESH_IMAGE
             then suspend boundNode (markToKill podName st)
             else if NodeName (Spec dotmesh) \<noteq> '''' \<and> NodeName (Spec dotmesh) \<noteq> boundNode
             then suspend boundNode (markToKill podName st)
             else if boundNode \<notin> set validNodes
             then markToKill podName st
             else if status = PodFailed
             then suspend boundNode (markToKill podName st)
             else st\<lparr>undottedNodes := removeAll boundNode (undottedNodes st)\<rparr>)"

fun observePods :: "string \<Rightarrow> string list \<Rightarrow> classification \<Rightarrow> Pod list \<Rightarrow> classification" where
  "observePods DOTMESH_IMAGE validNodes st [] = st"
| "observePods DOTMESH_IMAGE validNodes st (dotmesh # dotmeshes) =
     observePods DOTMESH_IMAGE validNodes (observePod DOTMESH_IMAGE validNodes st dotmesh) dotmeshes"

subsection \<open>The minimum population\<close>

text \<open>
  \<open>int(CLUSTER_MINIMUM_RATIO * float32(len(validNodes)))\<close>: the length is converted to
  float32, multiplied by 0.75 in float32, and truncated. A float32 keeps 24 significant
  bits and rounds to the nearest value, ties to the even one. The product with
  \<open>0.75 = 3 / 4\<close> is rounded in units of a quarter, which the division by the power of
  two 4 does not disturb.
\<close>

fun bitLength :: "nat \<Rightarrow> nat" where
  "bitLength n = (if n = 0 then 0 else Suc (bitLength (n div 2)))"

definition roundToFloat32 :: "nat \<Rightarrow> nat" where
  "roundToFloat32 q =
     (if q < 2 ^ 24 then q
      else let e = bitLength q - 24; m = q div 2 ^ e; r = q mod 2 ^ e
           in if 2 * r > 2 ^ e \<or> (2 * r = 2 ^ e \<and> odd m) then (m + 1) * 2 ^ e else m * 2 ^ e)"

definition clusterMinimumPopulation :: "nat \<Rightarrow> int" where
  "clusterMinimumPopulation len = int (roundToFloat32 (3 * roundToFloat32 len) div 4)"

subsection \<open>Deleting unwanted pods\<close>

definition isRunning :: "(string \<rightharpoonup> bool) \<Rightarrow> string \<Rightarrow> bool" where
  "isRunning running name = (case running name of None \<Rightarrow> False | Some b \<Rightarrow> b)"

text \<open>
  The loop over \<open>dotmeshesToKill\<close>, in the order \<open>range\<close> gives. The state is the trace,
  the error log and \<open>clusterPopulation\<close>. A failed delete is logged and the loop goes on.
\<close>

fun deletePods ::
  "cluster_api \<Rightarrow> (string \<rightharpoonup> bool) \<Rightarrow> int \<Rightarrow> string list \<Rightarrow>
   api_call list \<times> error list \<times> int \<Rightarrow> api_call list \<times> error list \<times> int" where
  "deletePods srv running minimum [] s = s"
| "deletePods srv running minimum (dotmeshName # rest) (tr, log, clusterPopulation) =
     (if \<not> isRunning running dotmeshName \<or> clusterPopulation > minimum
      then deletePods srv running minimum rest
             (tr @ [PodsDelete dotmeshName DeletePropagationBackground],
              (case srv tr (PodsDelete dotmeshName DeletePropagationBackground) of
                 Some err \<Rightarrow> log @ [err]
               | None \<Rightarrow> log),
              (if isRunning running dotmeshName then clusterPopulation - 1 else clusterPopulation))
      else deletePods srv running minimum rest (tr, log, clusterPopulation))"

subsection \<open>Creating pods\<close>

text \<open>The loop over \<open>undottedNodes\<close>; a failed create is logged and the loop goes on.\<close>

fun createPods ::
  "dotmeshController \<Rightarrow> string \<Rightarrow> cluster_api \<Rightarrow> string list \<Rightarrow> string list \<Rightarrow>
   api_call list \<times> error list \<Rightarrow> api_call list \<times> error list" where
  "createPods c DOTMESH_IMAGE srv suspended [] s = s"
| "createPods c DOTMESH_IMAGE srv suspended (node # rest) (tr, log) =
     (if node \<in> set suspended
      then createPods c DOTMESH_IMAGE srv suspended rest (tr, log)
      else createPods c DOTMESH_IMAGE srv suspended rest
             (tr @ [PodsCreate (newDotmesh c DOTMESH_IMAGE node)],
              (case srv tr (PodsCreate (newDotmesh c DOTMESH_IMAGE node)) of
                 Some err \<Rightarrow> log @ [err]
               | None \<Rightarrow> log)))"

subsection \<open>The pass\<close>

definition initialClassification :: "string list \<Rightarrow> classification" where
  "initialClassification undotted =
     \<lparr>undottedNodes = undotted, suspendedNodes = [], dotmeshesToKill = [],
      dotmeshIsRunning = Map.empty, runningPodCount = 0\<rparr>"

text \<open>The sets and the classification that a pass computes from the two lists.\<close>

definition validNodesOf :: "Node list \<Rightarrow> string list" where
  "validNodesOf nodes = snd (observeNodes nodes ([], []))"

definition classify :: "string \<Rightarrow> Node list \<Rightarrow> Pod list \<Rightarrow> classification" where
  "classify DOTMESH_IMAGE nodes dotmeshes =
     observePods DOTMESH_IMAGE (validNodesOf nodes)
       (initialClassification (fst (observeNodes nodes ([], [])))) dotmeshes"

text \<open>
  The part of \<open>process\<close> after both listers have answered and the nodes are labelled:
  observe, delete, create, return nil.
\<close>

definition reconcile ::
  "dotmeshController \<Rightarrow> string \<Rightarrow> environment \<Rightarrow> Node list \<Rightarrow> Pod list \<Rightarrow> api_call list \<Rightarrow> pass" where
  "reconcile c DOTMESH_IMAGE env nodes dotmeshes tr =
     (let cl = classify DOTMESH_IMAGE nodes dotmeshes;
          deleted =
            deletePods (api env) (dotmeshIsRunning cl)
              (clusterMinimumPopulation (length (validNodesOf nodes)))
              (rangeToKill env (dotmeshesToKill cl))
              (tr, [], runningPodCount cl);
          created =
            createPods c DOTMESH_IMAGE (api env) (suspendedNodes cl)
              (rangeUndotted env (undottedNodes cl)) (fst deleted, fst (snd deleted))
      in \<lparr>outcome = Returned None, calls = fst created, logged = snd created\<rparr>)"

definition process :: "dotmeshController \<Rightarrow> string \<Rightarrow> environment \<Rightarrow> pass" where
  "process c DOTMESH_IMAGE env =
     (case nodeLister env of
        Inl err \<Rightarrow> \<lparr>outcome = Returned (Some err), calls = [], logged = []\<rparr>
      | Inr nodes \<Rightarrow>
          (case labelNodes (api env) [] nodes of
             (Some stop, tr) \<Rightarrow> \<lparr>outcome = stop, calls = tr, logged = []\<rparr>
           | (None, tr) \<Rightarrow>
               (case podLister env of
                  Inl err \<Rightarrow> \<lparr>outcome = Returned (Some err), calls = tr, logged = []\<rparr>
                | Inr dotmeshes \<Rightarrow> reconcile c DOTMESH_IMAGE env nodes dotmeshes tr)))"

section \<open>Notions used to state the properties\<close>



text \<open>
  A pod that passes every check of \<open>observePod\<close>: it is bound to a valid node by the
  identity label, has one container with the configured image, is scheduled nowhere or on
  its bound node, and has not failed.
\<close>

definition healthy :: "string \<Rightarrow> string list \<Rightarrow> Pod \<Rightarrow> bool" where
  "healthy DOTMESH_IMAGE validNodes dotmesh =
     (case index (NodeSelector (Spec dotmesh)) DOTMESH_NODE_LABEL of
        None \<Rightarrow> False
      | Some boundNode \<Rightarrow>
          length (Containers (Spec dotmesh)) = 1 \<and>
          Container_Image (Containers (Spec dotmesh) ! 0) = DOTMESH_IMAGE \<and>
          (NodeName (Spec dotmesh) = '''' \<or> NodeName (Spec dotmesh) = boundNode) \<and>
          boundNode \<in> set validNodes \<and>
          Phase (Status dotmesh) \<noteq> PodFailed)"

text \<open>The kinds of call in a trace.\<close>

definition isNodesUpdate :: "api_call \<Rightarrow> bool" where
  "isNodesUpdate call = (case call of NodesUpdate n \<Rightarrow> True | _ \<Rightarrow> False)"

definition deletesRunning :: "(string \<rightharpoonup> bool) \<Rightarrow> api_call \<Rightarrow> bool" where
  "deletesRunning running call =
     (case call of PodsDelete name policy \<Rightarrow> isRunning running name | _ \<Rightarrow> False)"

text \<open>
  The names that the deletion loop deletes, and the nodes that the creation loop creates
  a pod for: the two loops without the trace and the log.
\<close>

fun deleted :: "(string \<rightharpoonup> bool) \<Rightarrow> int \<Rightarrow> string list \<Rightarrow> int \<Rightarrow> string list" where
  "deleted running minimum [] clusterPopulation = []"
| "deleted running minimum (dotmeshName # rest) clusterPopulation =
     (if \<not> isRunning running dotmeshName \<or> clusterPopulation > minimum
      then dotmeshName #
           deleted running minimum rest
             (if isRunning running dotmeshName then clusterPopulation - 1 else clusterPopulation)
      else deleted running minimum rest clusterPopulation)"

definition created :: "string list \<Rightarrow> string list \<Rightarrow> string list" where
  "created suspended undotted = filter (\<lambda>node. node \<notin> set suspended) undotted"

subsection \<open>Example clusters\<close>

definition exampleNode :: "string \<Rightarrow> gomap \<Rightarrow> Node" where
  "exampleNode name labels =
     \<lparr>Node_ObjectMeta = \<lparr>Name = name, Namespace = '''', Labels = labels, Annotations = None\<rparr>\<rparr>"

definition labelledNode :: "string \<Rightarrow> Node" where
  "labelledNode name = exampleNode name (Some [DOTMESH_NODE_LABEL \<mapsto> name])"

definition defaultController :: dotmeshController where
  "defaultController = \<lparr>updatesNeeded = False, config = \<lparr>Data = Some (map_of defaults)\<rparr>\<rparr>"

text \<open>A pod as the factory builds it for a node, scheduled on that node, in a given phase.\<close>

definition observedPod :: "string \<Rightarrow> string \<Rightarrow> string \<Rightarrow> Pod" where
  "observedPod DOTMESH_IMAGE node phase =
     (newDotmesh defaultController DOTMESH_IMAGE node)
       \<lparr>Spec := (Spec (newDotmesh defaultController DOTMESH_IMAGE node))\<lparr>NodeName := node\<rparr>,
        Status := \<lparr>Phase = phase\<rparr>\<rparr>"

definition quietApi :: cluster_api where
  "quietApi tr call = None"

definition exampleCluster :: "Node list \<Rightarrow> Pod list \<Rightarrow> environment" where
  "exampleCluster nodes dotmeshes =
     \<lparr>nodeLister = Inr nodes, podLister = Inr dotmeshes, api = quietApi,
      rangeToKill = (\<lambda>keys. keys), rangeUndotted = (\<lambda>keys. keys)\<rparr>"

text \<open>An API server that refuses the calls of one kind.\<close>

definition refusing :: "(api_call \<Rightarrow> bool) \<Rightarrow> cluster_api" where
  "refusing which tr call = (if which call then Some (Error ''refused'') else None)"

text \<open>
  The caches after the calls of a pass have taken effect and nothing else has happened:
  an updated node replaces the cached one, a deleted pod is gone, a created pod is there
  as it was built.
\<close>

fun applyCall :: "Node list \<times> Pod list \<Rightarrow> api_call \<Rightarrow> Node list \<times> Pod list" where
  "applyCall (nodes, dotmeshes) (NodesUpdate n2) =
     (map (\<lambda>node. if Name (Node_ObjectMeta node) = Name (Node_ObjectMeta n2) then n2 else node) nodes,
      dotmeshes)"
| "applyCall (nodes, dotmeshes) (PodsDelete name policy) =
     (nodes, filter (\<lambda>dotmesh. Name (Pod_ObjectMeta dotmesh) \<noteq> name) dotmeshes)"
| "applyCall (nodes, dotmeshes) (PodsCreate dotmesh) = (nodes, dotmeshes @ [dotmesh])"

definition settled :: "Node list \<Rightarrow> Pod list \<Rightarrow> api_call list \<Rightarrow> Node list \<times> Pod list" where
  "settled nodes dotmeshes trace = foldl applyCall (nodes, dotmeshes) trace"

text \<open>The running pods of the pod cache; the deletions of running pods in a trace.\<close>

definition runningPods :: "Pod list \<Rightarrow> Pod list" where
  "runningPods dotmeshes = filter (\<lambda>dotmesh. Phase (Status dotmesh) = PodRunning) dotmeshes"

definition runningDeletions :: "string \<Rightarrow> Node list \<Rightarrow> Pod list \<Rightarrow> api_call list \<Rightarrow> api_call list" where
  "runningDeletions DOTMESH_IMAGE nodes dotmeshes trace =
     filter (deletesRunning (dotmeshIsRunning (classify DOTMESH_IMAGE nodes dotmeshes))) trace"

definition deleteCalls :: "string list \<Rightarrow> api_call list" where
  "deleteCalls names = map (\<lambda>name. PodsDelete name DeletePropagationBackground) names"

definition createCalls :: "dotmeshController \<Rightarrow> string \<Rightarrow> string list \<Rightarrow> api_call list" where
  "createCalls c DOTMESH_IMAGE nodes = map (\<lambda>node. PodsCreate (newDotmesh c DOTMESH_IMAGE node)) nodes"


section \<open>Properties of the config resolver\<close>



lemma provideDefault_None: "provideDefault None key deflt = Inl AssignmentToNilMap"
  by (simp add: provideDefault_def index_def assign_def)



lemma provideDefaults_None: "provideDefaults None defaults = Inl AssignmentToNilMap"
  by (simp add: defaults_def provideDefault_None)

text \<open>
  A ConfigMap that was fetched but carries no data has a nil \<open>Data\<close>: the first
  \<open>provideDefault\<close> assigns into it and the construction panics.
\<close>

lemma newDotmeshController_nil:
  "newDotmeshController (Inr \<lparr>Data = None\<rparr>) = Inl AssignmentToNilMap"
  by (simp add: newDotmeshController_def provideDefaults_None)






section \<open>Properties of the pod factory\<close>




section \<open>Properties of the loops of a pass\<close>

lemma observeNodes_same:
  "observeNodes nodes (xs, xs) = (fst (observeNodes nodes (xs, xs)), fst (observeNodes nodes (xs, xs)))"
  by (induction nodes arbitrary: xs) simp_all

lemma fst_observeNodes: "fst (observeNodes nodes ([], [])) = validNodesOf nodes"
  unfolding validNodesOf_def using observeNodes_same [of nodes "[]"] by (metis snd_conv)

lemma set_observeNodes:
  "set (snd (observeNodes nodes (xs, ys))) =
     set ys \<union> (\<lambda>node. indexOrZero (Labels (Node_ObjectMeta node)) DOTMESH_NODE_LABEL) ` set nodes"
  by (induction nodes arbitrary: xs ys) auto

lemma distinct_observeNodes:
  "distinct ys \<Longrightarrow> distinct (snd (observeNodes nodes (xs, ys)))"
  by (induction nodes arbitrary: xs ys) simp_all

lemma set_validNodesOf:
  "set (validNodesOf nodes) =
     (\<lambda>node. indexOrZero (Labels (Node_ObjectMeta node)) DOTMESH_NODE_LABEL) ` set nodes"
  by (simp add: validNodesOf_def set_observeNodes)

lemma distinct_validNodesOf: "distinct (validNodesOf nodes)"
  by (simp add: validNodesOf_def distinct_observeNodes)

lemma classify_eq:
  "classify img nodes pods =
     observePods img (validNodesOf nodes) (initialClassification (validNodesOf nodes)) pods"
  by (simp add: classify_def fst_observeNodes)

text \<open>The loops issue exactly the calls of their views, after the trace they start from.\<close>

lemma deletePods_calls:
  "fst (deletePods srv running m names (tr, log, pop)) =
     tr @ map (\<lambda>name. PodsDelete name DeletePropagationBackground) (deleted running m names pop)"
  by (induction names arbitrary: tr log pop) simp_all

lemma createPods_calls:
  "fst (createPods c img srv suspended nodes (tr, log)) =
     tr @ map (\<lambda>node. PodsCreate (newDotmesh c img node)) (created suspended nodes)"
  by (induction nodes arbitrary: tr log) (simp_all add: created_def)

lemma labelNodes_calls:
  "\<exists>us. snd (labelNodes srv tr nodes) = tr @ us \<and> (\<forall>call \<in> set us. isNodesUpdate call)"
proof (induction nodes arbitrary: tr)
  case Nil
  then show ?case by simp
next
  case (Cons node nodes)
  show ?case
  proof (cases "case index (Labels (Node_ObjectMeta node)) DOTMESH_NODE_LABEL of
            None \<Rightarrow> True | Some labelName \<Rightarrow> labelName \<noteq> Name (Node_ObjectMeta node)")
    case False
    then show ?thesis using Cons.IH [of tr] by simp
  next
    case True
    show ?thesis
    proof (cases "assign (Labels (Node_ObjectMeta node)) DOTMESH_NODE_LABEL (Name (Node_ObjectMeta node))")
      case (Inl p)
      then show ?thesis using True by simp
    next
      case (Inr labels)
      let ?call = "NodesUpdate (relabelled node labels)"
      show ?thesis
      proof (cases "srv tr ?call")
        case None
        from Cons.IH [of "tr @ [?call]"] obtain us where
          us: "snd (labelNodes srv (tr @ [?call]) nodes) = (tr @ [?call]) @ us"
            "\<forall>call \<in> set us. isNodesUpdate call" by blast
        have "snd (labelNodes srv tr (node # nodes)) = tr @ (?call # us)"
          using True Inr None us(1) by simp
        moreover have "\<forall>call \<in> set (?call # us). isNodesUpdate call"
          using us(2) by (simp add: isNodesUpdate_def)
        ultimately show ?thesis by blast
      next
        case (Some err)
        have "snd (labelNodes srv tr (node # nodes)) = tr @ [?call]"
          using True Inr Some by simp
        moreover have "\<forall>call \<in> set [?call]. isNodesUpdate call"
          by (simp add: isNodesUpdate_def)
        ultimately show ?thesis by blast
      qed
    qed
  qed
qed

subsection \<open>Classification\<close>

lemma classification_fields [simp]:
  "dotmeshesToKill (markToKill name st) = List.insert name (dotmeshesToKill st)"
  "suspendedNodes (markToKill name st) = suspendedNodes st"
  "undottedNodes (markToKill name st) = undottedNodes st"
  "dotmeshIsRunning (markToKill name st) = dotmeshIsRunning st"
  "runningPodCount (markToKill name st) = runningPodCount st"
  "dotmeshesToKill (suspend node st) = dotmeshesToKill st"
  "suspendedNodes (suspend node st) = List.insert node (suspendedNodes st)"
  "undottedNodes (suspend node st) = undottedNodes st"
  "dotmeshIsRunning (suspend node st) = dotmeshIsRunning st"
  "runningPodCount (suspend node st) = runningPodCount st"
  "dotmeshesToKill (recordStatus name status st) = dotmeshesToKill st"
  "suspendedNodes (recordStatus name status st) = suspendedNodes st"
  "undottedNodes (recordStatus name status st) = undottedNodes st"
  "dotmeshIsRunning (recordStatus name status st) = (dotmeshIsRunning st)(name \<mapsto> (status = PodRunning))"
  "runningPodCount (recordStatus name status st) =
     (if status = PodRunning then runningPodCount st + 1 else runningPodCount st)"
  by (simp_all add: markToKill_def suspend_def recordStatus_def)

text \<open>One pod: a healthy pod strikes its node out, any other pod is marked to kill.\<close>

lemma observePod_healthy:
  assumes "healthy img valid p" and "index (NodeSelector (Spec p)) DOTMESH_NODE_LABEL = Some b"
  shows "dotmeshesToKill (observePod img valid st p) = dotmeshesToKill st"
    and "suspendedNodes (observePod img valid st p) = suspendedNodes st"
    and "undottedNodes (observePod img valid st p) = removeAll b (undottedNodes st)"
  using assms by (auto simp: observePod_def healthy_def Let_def)

lemma observePod_unhealthy:
  assumes "\<not> healthy img valid p"
  shows "dotmeshesToKill (observePod img valid st p) =
           List.insert (Name (Pod_ObjectMeta p)) (dotmeshesToKill st)"
    and "undottedNodes (observePod img valid st p) = undottedNodes st"
    and "set (suspendedNodes (observePod img valid st p)) \<subseteq>
           set (suspendedNodes st) \<union> {b. index (NodeSelector (Spec p)) DOTMESH_NODE_LABEL = Some b}"
  using assms by (auto simp: observePod_def healthy_def Let_def split: option.splits)

lemma observePod_status:
  "dotmeshIsRunning (observePod img valid st p) =
     (dotmeshIsRunning st)(Name (Pod_ObjectMeta p) \<mapsto> (Phase (Status p) = PodRunning))"
  "runningPodCount (observePod img valid st p) =
     (if Phase (Status p) = PodRunning then runningPodCount st + 1 else runningPodCount st)"
  by (simp_all add: observePod_def Let_def split: option.splits)

lemma observePod_suspended_mono:
  "set (suspendedNodes st) \<subseteq> set (suspendedNodes (observePod img valid st p))"
  by (auto simp: observePod_def Let_def split: option.splits)

text \<open>The loop over the pods.\<close>

lemma observePods_toKill:
  "set (dotmeshesToKill (observePods img valid st pods)) =
     set (dotmeshesToKill st) \<union> {Name (Pod_ObjectMeta p) | p. p \<in> set pods \<and> \<not> healthy img valid p}"
proof (induction pods arbitrary: st)
  case Nil
  then show ?case by simp
next
  case (Cons p pods)
  show ?case
  proof (cases "healthy img valid p")
    case True
    then obtain b where "index (NodeSelector (Spec p)) DOTMESH_NODE_LABEL = Some b"
      by (auto simp: healthy_def split: option.splits)
    with True show ?thesis
      using Cons.IH [of "observePod img valid st p"] by (auto simp: observePod_healthy)
  next
    case False
    then show ?thesis
      using Cons.IH [of "observePod img valid st p"] by (auto simp: observePod_unhealthy)
  qed
qed

lemma observePods_distinct_toKill:
  "distinct (dotmeshesToKill st) \<Longrightarrow> distinct (dotmeshesToKill (observePods img valid st pods))"
proof (induction pods arbitrary: st)
  case Nil
  then show ?case by simp
next
  case (Cons p pods)
  have "distinct (dotmeshesToKill (observePod img valid st p))"
  proof (cases "healthy img valid p")
    case True
    then obtain b where "index (NodeSelector (Spec p)) DOTMESH_NODE_LABEL = Some b"
      by (auto simp: healthy_def split: option.splits)
    with True Cons.prems show ?thesis by (simp add: observePod_healthy)
  next
    case False
    with Cons.prems show ?thesis by (simp add: observePod_unhealthy)
  qed
  then show ?case using Cons.IH by simp
qed

lemma observePods_suspended:
  "set (suspendedNodes (observePods img valid st pods)) \<subseteq>
     set (suspendedNodes st) \<union>
     {b. \<exists>p \<in> set pods. index (NodeSelector (Spec p)) DOTMESH_NODE_LABEL = Some b \<and> \<not> healthy img valid p}"
proof (induction pods arbitrary: st)
  case Nil
  then show ?case by simp
next
  case (Cons p pods)
  show ?case
  proof (cases "healthy img valid p")
    case True
    then obtain b where "index (NodeSelector (Spec p)) DOTMESH_NODE_LABEL = Some b"
      by (auto simp: healthy_def split: option.splits)
    with True have "suspendedNodes (observePod img valid st p) = suspendedNodes st"
      by (simp add: observePod_healthy)
    then show ?thesis using Cons.IH [of "observePod img valid st p"] by auto
  next
    case False
    from observePod_unhealthy(3) [OF False, of st] Cons.IH [of "observePod img valid st p"] False
    show ?thesis by auto
  qed
qed

lemma observePods_undotted:
  "set (undottedNodes (observePods img valid st pods)) =
     set (undottedNodes st) -
     {b. \<exists>p \<in> set pods. index (NodeSelector (Spec p)) DOTMESH_NODE_LABEL = Some b \<and> healthy img valid p}"
proof (induction pods arbitrary: st)
  case Nil
  then show ?case by simp
next
  case (Cons p pods)
  show ?case
  proof (cases "healthy img valid p")
    case True
    then obtain b where b: "index (NodeSelector (Spec p)) DOTMESH_NODE_LABEL = Some b"
      by (auto simp: healthy_def split: option.splits)
    with True have "undottedNodes (observePod img valid st p) = removeAll b (undottedNodes st)"
      by (simp add: observePod_healthy)
    then show ?thesis using Cons.IH [of "observePod img valid st p"] b True by auto
  next
    case False
    then have "undottedNodes (observePod img valid st p) = undottedNodes st"
      by (simp add: observePod_unhealthy)
    then show ?thesis using Cons.IH [of "observePod img valid st p"] False by auto
  qed
qed

lemma observePods_runningPodCount:
  "runningPodCount (observePods img valid st pods) =
     runningPodCount st + int (length (filter (\<lambda>p. Phase (Status p) = PodRunning) pods))"
  by (induction pods arbitrary: st) (simp_all add: observePod_status)

lemma observePods_isRunning_other:
  "name \<notin> (\<lambda>p. Name (Pod_ObjectMeta p)) ` set pods \<Longrightarrow>
   dotmeshIsRunning (observePods img valid st pods) name = dotmeshIsRunning st name"
  by (induction pods arbitrary: st) (auto simp: observePod_status)

lemma observePods_isRunning:
  "distinct (map (\<lambda>p. Name (Pod_ObjectMeta p)) pods) \<Longrightarrow> p \<in> set pods \<Longrightarrow>
   dotmeshIsRunning (observePods img valid st pods) (Name (Pod_ObjectMeta p)) =
     Some (Phase (Status p) = PodRunning)"
proof (induction pods arbitrary: st)
  case Nil
  then show ?case by simp
next
  case (Cons q pods)
  show ?case
  proof (cases "p = q")
    case True
    then have "Name (Pod_ObjectMeta p) \<notin> (\<lambda>p. Name (Pod_ObjectMeta p)) ` set pods"
      using Cons.prems(1) by auto
    then show ?thesis using True
      by (simp add: observePods_isRunning_other observePod_status)
  next
    case False
    then show ?thesis using Cons by simp
  qed
qed

subsection \<open>The calls of a pass\<close>

lemma labelNodes_stop:
  "fst (labelNodes srv tr nodes) = Some stop \<Longrightarrow> stop \<noteq> Returned None"
  by (induction nodes arbitrary: tr) (auto split: if_splits sum.splits option.splits)

lemma process_stopped:
  assumes "nodeLister env = Inr nodes" and "labelNodes (api env) [] nodes = (Some stop, us)"
  shows "process c img env = \<lparr>outcome = stop, calls = us, logged = []\<rparr>"
  using assms by (simp add: process_def)

lemma process_completed:
  assumes "nodeLister env = Inr nodes" and "podLister env = Inr pods"
    and "labelNodes (api env) [] nodes = (None, us)"
  shows "outcome (process c img env) = Returned None"
    and "calls (process c img env) =
           us @
           deleteCalls (deleted (dotmeshIsRunning (classify img nodes pods))
              (clusterMinimumPopulation (length (validNodesOf nodes)))
              (rangeToKill env (dotmeshesToKill (classify img nodes pods)))
              (runningPodCount (classify img nodes pods))) @
           createCalls c img (created (suspendedNodes (classify img nodes pods))
              (rangeUndotted env (undottedNodes (classify img nodes pods))))"
proof -
  show "outcome (process c img env) = Returned None"
    using assms by (simp add: process_def reconcile_def Let_def)
  obtain tr1 log1 pop1 where d: "deletePods (api env) (dotmeshIsRunning (classify img nodes pods))
              (clusterMinimumPopulation (length (validNodesOf nodes)))
              (rangeToKill env (dotmeshesToKill (classify img nodes pods)))
              (us, [], runningPodCount (classify img nodes pods)) = (tr1, log1, pop1)"
    by (metis prod_cases3)
  have tr1: "tr1 = us @ deleteCalls (deleted (dotmeshIsRunning (classify img nodes pods))
              (clusterMinimumPopulation (length (validNodesOf nodes)))
              (rangeToKill env (dotmeshesToKill (classify img nodes pods)))
              (runningPodCount (classify img nodes pods)))"
    using deletePods_calls [of "api env" "dotmeshIsRunning (classify img nodes pods)"
        "clusterMinimumPopulation (length (validNodesOf nodes))"
        "rangeToKill env (dotmeshesToKill (classify img nodes pods))" us "[]"
        "runningPodCount (classify img nodes pods)"] d
    by (simp add: deleteCalls_def)
  have "calls (process c img env) =
      fst (createPods c img (api env) (suspendedNodes (classify img nodes pods))
          (rangeUndotted env (undottedNodes (classify img nodes pods))) (tr1, log1))"
    using assms d by (simp add: process_def reconcile_def Let_def)
  then show "calls (process c img env) =
           us @
           deleteCalls (deleted (dotmeshIsRunning (classify img nodes pods))
              (clusterMinimumPopulation (length (validNodesOf nodes)))
              (rangeToKill env (dotmeshesToKill (classify img nodes pods)))
              (runningPodCount (classify img nodes pods))) @
           createCalls c img (created (suspendedNodes (classify img nodes pods))
              (rangeUndotted env (undottedNodes (classify img nodes pods))))"
    using tr1 by (simp add: createPods_calls createCalls_def)
qed

lemma deleted_subset: "set (deleted R m names pop) \<subseteq> set names"
  by (induction names arbitrary: pop) auto

lemma deleted_not_running:
  "name \<in> set names \<Longrightarrow> \<not> isRunning R name \<Longrightarrow> name \<in> set (deleted R m names pop)"
  by (induction names arbitrary: pop) auto

lemma deleted_running_guard:
  "j < length (deleted R m names pop) \<Longrightarrow> isRunning R (deleted R m names pop ! j) \<Longrightarrow>
   m < pop - int (length (filter (isRunning R) (take j (deleted R m names pop))))"
proof (induction names arbitrary: pop j)
  case Nil
  then show ?case by simp
next
  case (Cons name names)
  show ?case
  proof (cases "\<not> isRunning R name \<or> pop > m")
    case False
    then show ?thesis using Cons by simp
  next
    case True
    let ?pop = "if isRunning R name then pop - 1 else pop"
    have d: "deleted R m (name # names) pop = name # deleted R m names ?pop"
      using True by simp
    show ?thesis
    proof (cases j)
      case 0
      then show ?thesis using Cons.prems True d by auto
    next
      case (Suc k)
      then have "k < length (deleted R m names ?pop)"
        and "isRunning R (deleted R m names ?pop ! k)"
        using Cons.prems d by auto
      from Cons.IH [OF this]
      show ?thesis using d Suc by auto
    qed
  qed
qed

lemma deleted_running_bound:
  "int (length (filter (isRunning R) (deleted R m names pop))) \<le> max 0 (pop - m)"
proof (induction names arbitrary: pop)
  case Nil
  then show ?case by simp
next
  case (Cons name names)
  show ?case
  proof (cases "isRunning R name")
    case False
    then show ?thesis using Cons.IH [of pop] by simp
  next
    case True
    show ?thesis
    proof (cases "pop > m")
      case False
      then show ?thesis using True Cons.IH [of pop] by simp
    next
      case gt: True
      then show ?thesis using True Cons.IH [of "pop - 1"] by simp
    qed
  qed
qed

lemma filter_deletesRunning_deleteCalls:
  "filter (deletesRunning R) (deleteCalls names) = deleteCalls (filter (isRunning R) names)"
  by (induction names) (simp_all add: deleteCalls_def deletesRunning_def)

lemma filter_deletesRunning_createCalls: "filter (deletesRunning R) (createCalls c img nodes) = []"
  by (induction nodes) (simp_all add: createCalls_def deletesRunning_def)

lemma filter_deletesRunning_updates:
  "\<forall>call \<in> set us. isNodesUpdate call \<Longrightarrow> filter (deletesRunning R) us = []"
  by (induction us) (auto simp: isNodesUpdate_def deletesRunning_def split: api_call.splits)

lemma length_deleteCalls [simp]: "length (deleteCalls names) = length names"
  by (simp add: deleteCalls_def)

lemma roundToFloat32_small: "q < 2 ^ 24 \<Longrightarrow> roundToFloat32 q = q"
  by (simp add: roundToFloat32_def)

lemma clusterMinimumPopulation_exact:
  assumes "len < 2 ^ 22"
  shows "clusterMinimumPopulation len = int (3 * len div 4)"
proof -
  have "len < 2 ^ 24" using assms by simp
  moreover have "3 * len < 2 ^ 24" using assms by simp
  ultimately show ?thesis
    by (simp add: clusterMinimumPopulation_def roundToFloat32_small)
qed

lemma classify_runningPodCount:
  "runningPodCount (classify img nodes pods) = int (length (runningPods pods))"
  by (simp add: classify_eq observePods_runningPodCount initialClassification_def runningPods_def)

text \<open>The calls of a pass, whichever way it ends: updates, then deletions, then creations.\<close>

lemma process_calls_shape:
  assumes "nodeLister env = Inr nodes" and "podLister env = Inr pods"
  shows "\<exists>us names news. calls (process c img env) = us @ deleteCalls names @ createCalls c img news \<and>
           (\<forall>call \<in> set us. isNodesUpdate call) \<and>
           (names = [] \<and> news = [] \<and> outcome (process c img env) \<noteq> Returned None \<or>
            outcome (process c img env) = Returned None \<and>
            names = deleted (dotmeshIsRunning (classify img nodes pods))
              (clusterMinimumPopulation (length (validNodesOf nodes)))
              (rangeToKill env (dotmeshesToKill (classify img nodes pods)))
              (runningPodCount (classify img nodes pods)) \<and>
            news = created (suspendedNodes (classify img nodes pods))
              (rangeUndotted env (undottedNodes (classify img nodes pods))))"
proof -
  obtain r us where l: "labelNodes (api env) [] nodes = (r, us)" by (cases "labelNodes (api env) [] nodes")
  from labelNodes_calls [of "api env" "[]" nodes] l
  have us: "\<forall>call \<in> set us. isNodesUpdate call" by auto
  show ?thesis
  proof (cases r)
    case None
    from process_completed [OF assms l [unfolded None], of c img] us
    show ?thesis by blast
  next
    case (Some stop)
    have "stop \<noteq> Returned None" using labelNodes_stop [of "api env" "[]" nodes stop] l Some by simp
    moreover have "process c img env = \<lparr>outcome = stop, calls = us, logged = []\<rparr>"
      using process_stopped [OF assms(1) l [unfolded Some]] .
    ultimately have "calls (process c img env) = us @ deleteCalls [] @ createCalls c img [] \<and>
        outcome (process c img env) \<noteq> Returned None"
      by (simp add: deleteCalls_def createCalls_def)
    with us show ?thesis by blast
  qed
qed

lemma nth_deleteCalls: "j < length names \<Longrightarrow> deleteCalls names ! j = PodsDelete (names ! j) DeletePropagationBackground"
  by (simp add: deleteCalls_def)

lemma take_deleteCalls: "take j (deleteCalls names) = deleteCalls (take j names)"
  by (simp add: deleteCalls_def take_map)

lemma deletesRunning_createCalls: "call \<in> set (createCalls c img news) \<Longrightarrow> \<not> deletesRunning R call"
  by (auto simp: createCalls_def deletesRunning_def)

lemma deletesRunning_updates: "isNodesUpdate call \<Longrightarrow> \<not> deletesRunning R call"
  by (auto simp: isNodesUpdate_def deletesRunning_def split: api_call.splits)

text \<open>A running pod is deleted only above the minimum, in any trace of that shape.\<close>

lemma shape_running_guard:
  assumes tr: "tr = us @ deleteCalls (deleted R m order pop) @ createCalls c img news"
    and us: "\<forall>call \<in> set us. isNodesUpdate call"
    and i: "i < length tr" and run: "deletesRunning R (tr ! i)"
  shows "m < pop - int (length (filter (deletesRunning R) (take i tr)))"
proof -
  let ?names = "deleted R m order pop"
  have i1: "\<not> i < length us"
  proof
    assume "i < length us"
    then have "tr ! i \<in> set us" using tr by (simp add: nth_append)
    then show False using us run deletesRunning_updates by blast
  qed
  define j where "j = i - length us"
  have j: "j < length ?names"
  proof (rule ccontr)
    assume "\<not> j < length ?names"
    then have "tr ! i \<in> set (createCalls c img news)"
      using tr i i1 j_def by (auto simp: nth_append)
    then show False using run deletesRunning_createCalls by blast
  qed
  have nth: "tr ! i = PodsDelete (?names ! j) DeletePropagationBackground"
    using tr i1 j j_def by (simp add: nth_append nth_deleteCalls)
  then have r: "isRunning R (?names ! j)" using run by (simp add: deletesRunning_def)
  have "take i tr = us @ deleteCalls (take j ?names)"
    using tr i1 j j_def by (simp add: take_deleteCalls)
  then have "filter (deletesRunning R) (take i tr) = deleteCalls (filter (isRunning R) (take j ?names))"
    using us by (simp add: filter_deletesRunning_updates filter_deletesRunning_deleteCalls)
  then show ?thesis using deleted_running_guard [OF j r] by simp
qed

lemma shape_running_bound:
  assumes tr: "tr = us @ deleteCalls (deleted R m order pop) @ createCalls c img news"
    and us: "\<forall>call \<in> set us. isNodesUpdate call"
  shows "int (length (filter (deletesRunning R) tr)) \<le> max 0 (pop - m)"
  using deleted_running_bound [of R m order pop] tr us
  by (simp add: filter_deletesRunning_updates filter_deletesRunning_deleteCalls
      filter_deletesRunning_createCalls)

text \<open>
  Claim C1. In a pass that reaches the deletion step, every pod marked to kill that is not
  recorded as running is deleted. A pod recorded as running is deleted only at a moment
  when the running population, less the running pods deleted before it in the pass, exceeds
  floor(0.75 * |validNodes|). So the pass deletes at most
  max(0, runningPods - floor(0.75 * |validNodes|)) running pods. The float32 product for
  the minimum is exact below 2^22 nodes.
\<close>

theorem running_deletions_bounded:
  assumes "nodeLister env = Inr nodes" and "podLister env = Inr dotmeshes"
    and "mset (rangeToKill env (dotmeshesToKill (classify img nodes dotmeshes))) =
           mset (dotmeshesToKill (classify img nodes dotmeshes))"
    and "length (validNodesOf nodes) < 2 ^ 22"
  shows "(outcome (process c img env) = Returned None \<longrightarrow>
           (\<forall>name \<in> set (dotmeshesToKill (classify img nodes dotmeshes)).
              \<not> isRunning (dotmeshIsRunning (classify img nodes dotmeshes)) name \<longrightarrow>
              PodsDelete name DeletePropagationBackground \<in> set (calls (process c img env)))) \<and>
         (\<forall>i < length (calls (process c img env)).
            deletesRunning (dotmeshIsRunning (classify img nodes dotmeshes)) (calls (process c img env) ! i) \<longrightarrow>
            int (3 * length (validNodesOf nodes) div 4) <
              int (length (runningPods dotmeshes)) -
              int (length (runningDeletions img nodes dotmeshes (take i (calls (process c img env)))))) \<and>
         int (length (runningDeletions img nodes dotmeshes (calls (process c img env)))) \<le>
           max 0 (int (length (runningPods dotmeshes)) - int (3 * length (validNodesOf nodes) div 4))"
proof -
  let ?cl = "classify img nodes dotmeshes"
  let ?R = "dotmeshIsRunning ?cl"
  let ?m = "clusterMinimumPopulation (length (validNodesOf nodes))"
  let ?P = "process c img env"
  have m: "?m = int (3 * length (validNodesOf nodes) div 4)"
    using assms(4) by (rule clusterMinimumPopulation_exact)
  have pop: "runningPodCount ?cl = int (length (runningPods dotmeshes))"
    by (rule classify_runningPodCount)
  from process_calls_shape [OF assms(1,2), of c img]
  obtain us names news where shape: "calls ?P = us @ deleteCalls names @ createCalls c img news"
    and us: "\<forall>call \<in> set us. isNodesUpdate call"
    and alt: "names = [] \<and> news = [] \<and> outcome ?P \<noteq> Returned None \<or>
            outcome ?P = Returned None \<and>
            names = deleted ?R ?m (rangeToKill env (dotmeshesToKill ?cl)) (runningPodCount ?cl) \<and>
            news = created (suspendedNodes ?cl) (rangeUndotted env (undottedNodes ?cl))"
    by blast
  have names: "names = deleted ?R ?m (if outcome ?P = Returned None
      then rangeToKill env (dotmeshesToKill ?cl) else []) (runningPodCount ?cl)"
    using alt by auto
  have a: "outcome ?P = Returned None \<longrightarrow>
           (\<forall>name \<in> set (dotmeshesToKill ?cl). \<not> isRunning ?R name \<longrightarrow>
              PodsDelete name DeletePropagationBackground \<in> set (calls ?P))"
  proof (intro impI ballI)
    fix name
    assume o: "outcome ?P = Returned None" and k: "name \<in> set (dotmeshesToKill ?cl)"
      and r: "\<not> isRunning ?R name"
    have "name \<in> set (rangeToKill env (dotmeshesToKill ?cl))"
      using k assms(3) by (metis set_mset_mset)
    then have "name \<in> set names"
      using o alt r deleted_not_running by auto
    then show "PodsDelete name DeletePropagationBackground \<in> set (calls ?P)"
      using shape by (auto simp: deleteCalls_def)
  qed
  have b: "\<forall>i < length (calls ?P). deletesRunning ?R (calls ?P ! i) \<longrightarrow>
            int (3 * length (validNodesOf nodes) div 4) <
              int (length (runningPods dotmeshes)) -
              int (length (runningDeletions img nodes dotmeshes (take i (calls ?P))))"
  proof (intro allI impI)
    fix i assume i: "i < length (calls ?P)" and r: "deletesRunning ?R (calls ?P ! i)"
    from shape_running_guard [OF shape [unfolded names] us i r]
    show "int (3 * length (validNodesOf nodes) div 4) <
              int (length (runningPods dotmeshes)) -
              int (length (runningDeletions img nodes dotmeshes (take i (calls ?P))))"
      using m pop by (simp add: runningDeletions_def)
  qed
  have c: "int (length (runningDeletions img nodes dotmeshes (calls ?P))) \<le>
           max 0 (int (length (runningPods dotmeshes)) - int (3 * length (validNodesOf nodes) div 4))"
    using shape_running_bound [OF shape [unfolded names] us] m pop
    by (simp add: runningDeletions_def)
  from a b c show ?thesis by blast
qed

lemmas example_defs =
  exampleCluster_def labelledNode_def exampleNode_def observedPod_def quietApi_def
  newDotmesh_def newDotmeshContainer_def

lemmas pass_defs =
  process_def reconcile_def classify_def validNodesOf_def initialClassification_def
  observePod_def markToKill_def suspend_def recordStatus_def isRunning_def
  index_def indexOrZero_def assign_def relabelled_def
  DOTMESH_NODE_LABEL_def PodRunning_def PodFailed_def Let_def

text \<open>
  The theorem at two labelled nodes whose two running pods have an old image: the minimum
  is 1, one running pod is deleted and one is spared.
\<close>

theorem running_deletions_bounded_witness:
  "nodeLister (exampleCluster [labelledNode ''n1'', labelledNode ''n2'']
      [observedPod ''old'' ''n1'' ''Running'', observedPod ''old'' ''n2'' ''Running'']) =
     Inr [labelledNode ''n1'', labelledNode ''n2''] \<and>
   length (validNodesOf [labelledNode ''n1'', labelledNode ''n2'']) < 2 ^ 22 \<and>
   calls (process defaultController ''new''
     (exampleCluster [labelledNode ''n1'', labelledNode ''n2'']
        [observedPod ''old'' ''n1'' ''Running'', observedPod ''old'' ''n2'' ''Running''])) =
     [PodsDelete ''dotmesh-n2'' DeletePropagationBackground] \<and>
   int (length (runningDeletions ''new'' [labelledNode ''n1'', labelledNode ''n2'']
      [observedPod ''old'' ''n1'' ''Running'', observedPod ''old'' ''n2'' ''Running'']
      [PodsDelete ''dotmesh-n2'' DeletePropagationBackground])) \<le> max 0 (2 - 1)"
proof -
  let ?nodes = "[labelledNode ''n1'', labelledNode ''n2'']"
  let ?pods = "[observedPod ''old'' ''n1'' ''Running'', observedPod ''old'' ''n2'' ''Running'']"
  let ?env = "exampleCluster ?nodes ?pods"
  have h1: "nodeLister ?env = Inr ?nodes" by (simp add: exampleCluster_def)
  have h2: "podLister ?env = Inr ?pods" by (simp add: exampleCluster_def)
  have h3: "mset (rangeToKill ?env (dotmeshesToKill (classify ''new'' ?nodes ?pods))) =
      mset (dotmeshesToKill (classify ''new'' ?nodes ?pods))"
    by (simp add: exampleCluster_def)
  have v: "validNodesOf ?nodes = [''n2'', ''n1'']"
    by (simp add: example_defs pass_defs)
  have h4: "length (validNodesOf ?nodes) < 2 ^ 22" by (simp add: v)
  have m: "clusterMinimumPopulation (Suc (Suc 0)) = 1"
    by (simp add: clusterMinimumPopulation_def roundToFloat32_def)
  have cs: "calls (process defaultController ''new'' ?env) =
      [PodsDelete ''dotmesh-n2'' DeletePropagationBackground]"
    by (simp add: example_defs pass_defs m)
  have r: "length (runningPods ?pods) = 2"
    by (simp add: runningPods_def example_defs PodRunning_def)
  from running_deletions_bounded [OF h1 h2 h3 h4, of defaultController]
  have "int (length (runningDeletions ''new'' ?nodes ?pods (calls (process defaultController ''new'' ?env)))) \<le>
           max 0 (int (length (runningPods ?pods)) - int (3 * length (validNodesOf ?nodes) div 4))"
    by blast
  then have "int (length (runningDeletions ''new'' ?nodes ?pods
      [PodsDelete ''dotmesh-n2'' DeletePropagationBackground])) \<le> max 0 (2 - 1)"
    by (simp add: cs r v)
  with h1 h4 cs show ?thesis by blast
qed

subsection \<open>Suspension\<close>

lemma healthy_bound:
  "healthy img valid p \<Longrightarrow> \<exists>b. index (NodeSelector (Spec p)) DOTMESH_NODE_LABEL = Some b"
  by (auto simp: healthy_def split: option.splits)

lemma classify_toKill:
  "set (dotmeshesToKill (classify img nodes pods)) =
     {Name (Pod_ObjectMeta p) | p. p \<in> set pods \<and> \<not> healthy img (validNodesOf nodes) p}"
  by (simp add: classify_eq observePods_toKill initialClassification_def)

lemma classify_suspended:
  "node \<in> set (suspendedNodes (classify img nodes pods)) \<Longrightarrow>
   \<exists>p \<in> set pods. index (NodeSelector (Spec p)) DOTMESH_NODE_LABEL = Some node \<and>
      \<not> healthy img (validNodesOf nodes) p"
  using observePods_suspended [of img "validNodesOf nodes" "initialClassification (validNodesOf nodes)" pods]
  by (auto simp: classify_eq initialClassification_def)

lemma observePod_no_selector:
  assumes "index (NodeSelector (Spec p)) DOTMESH_NODE_LABEL = None"
  shows "suspendedNodes (observePod img valid st p) = suspendedNodes st"
    and "Name (Pod_ObjectMeta p) \<in> set (dotmeshesToKill (observePod img valid st p))"
  using assms by (simp_all add: observePod_def Let_def)

lemma observePod_invalid_node:
  assumes "index (NodeSelector (Spec p)) DOTMESH_NODE_LABEL = Some b"
    and "length (Containers (Spec p)) = 1"
    and "Container_Image (Containers (Spec p) ! 0) = img"
    and "NodeName (Spec p) = '''' \<or> NodeName (Spec p) = b"
    and "b \<notin> set valid"
  shows "suspendedNodes (observePod img valid st p) = suspendedNodes st"
    and "Name (Pod_ObjectMeta p) \<in> set (dotmeshesToKill (observePod img valid st p))"
  using assms by (auto simp: observePod_def Let_def)

lemma observePod_suspends_with_kill:
  assumes "node \<in> set (suspendedNodes (observePod img valid st p))"
    and "node \<notin> set (suspendedNodes st)"
  shows "index (NodeSelector (Spec p)) DOTMESH_NODE_LABEL = Some node \<and>
         Name (Pod_ObjectMeta p) \<in> set (dotmeshesToKill (observePod img valid st p))"
proof (cases "healthy img valid p")
  case True
  then show ?thesis using assms healthy_bound [OF True] by (auto simp: observePod_healthy)
next
  case False
  from observePod_unhealthy [OF False, of st] assms show ?thesis by auto
qed

text \<open>
  Claim C9. Every node in the suspended set of a pass is the bound node of a pod that the
  pass marks to kill. One step of the classification adds a node to the suspended set only
  if it is the bound node of the pod observed, which the step marks to kill. A pod marked
  because its node selector lacks the identity label, or at the check of its bound node
  against validNodes, leaves the suspended set as it was.
\<close>

theorem suspension_accompanies_kill:
  "(\<forall>node \<in> set (suspendedNodes (classify img nodes dotmeshes)).
      \<exists>dotmesh \<in> set dotmeshes.
        index (NodeSelector (Spec dotmesh)) DOTMESH_NODE_LABEL = Some node \<and>
        Name (Pod_ObjectMeta dotmesh) \<in> set (dotmeshesToKill (classify img nodes dotmeshes))) \<and>
   (node \<in> set (suspendedNodes (observePod img validNodes st dotmesh)) \<and>
    node \<notin> set (suspendedNodes st) \<longrightarrow>
      index (NodeSelector (Spec dotmesh)) DOTMESH_NODE_LABEL = Some node \<and>
      Name (Pod_ObjectMeta dotmesh) \<in> set (dotmeshesToKill (observePod img validNodes st dotmesh))) \<and>
   (index (NodeSelector (Spec dotmesh)) DOTMESH_NODE_LABEL = None \<longrightarrow>
      Name (Pod_ObjectMeta dotmesh) \<in> set (dotmeshesToKill (observePod img validNodes st dotmesh)) \<and>
      suspendedNodes (observePod img validNodes st dotmesh) = suspendedNodes st) \<and>
   (index (NodeSelector (Spec dotmesh)) DOTMESH_NODE_LABEL = Some boundNode \<and>
    length (Containers (Spec dotmesh)) = 1 \<and>
    Container_Image (Containers (Spec dotmesh) ! 0) = img \<and>
    (NodeName (Spec dotmesh) = '''' \<or> NodeName (Spec dotmesh) = boundNode) \<and>
    boundNode \<notin> set validNodes \<longrightarrow>
      Name (Pod_ObjectMeta dotmesh) \<in> set (dotmeshesToKill (observePod img validNodes st dotmesh)) \<and>
      suspendedNodes (observePod img validNodes st dotmesh) = suspendedNodes st)"
proof (intro conjI ballI impI)
  fix n assume "n \<in> set (suspendedNodes (classify img nodes dotmeshes))"
  from classify_suspended [OF this]
  show "\<exists>dotmesh \<in> set dotmeshes.
        index (NodeSelector (Spec dotmesh)) DOTMESH_NODE_LABEL = Some n \<and>
        Name (Pod_ObjectMeta dotmesh) \<in> set (dotmeshesToKill (classify img nodes dotmeshes))"
    by (auto simp: classify_toKill)
next
  assume "node \<in> set (suspendedNodes (observePod img validNodes st dotmesh)) \<and>
    node \<notin> set (suspendedNodes st)"
  then show "index (NodeSelector (Spec dotmesh)) DOTMESH_NODE_LABEL = Some node"
    and "Name (Pod_ObjectMeta dotmesh) \<in> set (dotmeshesToKill (observePod img validNodes st dotmesh))"
    using observePod_suspends_with_kill by blast+
next
  assume "index (NodeSelector (Spec dotmesh)) DOTMESH_NODE_LABEL = None"
  then show "Name (Pod_ObjectMeta dotmesh) \<in> set (dotmeshesToKill (observePod img validNodes st dotmesh))"
    and "suspendedNodes (observePod img validNodes st dotmesh) = suspendedNodes st"
    by (simp_all add: observePod_no_selector)
next
  assume a: "index (NodeSelector (Spec dotmesh)) DOTMESH_NODE_LABEL = Some boundNode \<and>
    length (Containers (Spec dotmesh)) = 1 \<and>
    Container_Image (Containers (Spec dotmesh) ! 0) = img \<and>
    (NodeName (Spec dotmesh) = '''' \<or> NodeName (Spec dotmesh) = boundNode) \<and>
    boundNode \<notin> set validNodes"
  then show "Name (Pod_ObjectMeta dotmesh) \<in> set (dotmeshesToKill (observePod img validNodes st dotmesh))"
    and "suspendedNodes (observePod img validNodes st dotmesh) = suspendedNodes st"
    using observePod_invalid_node [of dotmesh boundNode img validNodes st] by blast+
qed

text \<open>
  The theorem at a running pod with an old image on node n1, which suspends n1, and at a
  pod with the configured image bound to a node n9 that is not valid.
\<close>

theorem suspension_accompanies_kill_witness:
  "suspendedNodes (classify ''new'' [labelledNode ''n1''] [observedPod ''old'' ''n1'' ''Running'']) = [''n1''] \<and>
   index (NodeSelector (Spec (observedPod ''old'' ''n1'' ''Running''))) DOTMESH_NODE_LABEL = Some ''n1'' \<and>
   Name (Pod_ObjectMeta (observedPod ''old'' ''n1'' ''Running'')) \<in>
     set (dotmeshesToKill (classify ''new'' [labelledNode ''n1''] [observedPod ''old'' ''n1'' ''Running''])) \<and>
   ''n9'' \<notin> set [''n1''] \<and>
   Name (Pod_ObjectMeta (observedPod ''new'' ''n9'' ''Running'')) \<in>
     set (dotmeshesToKill (observePod ''new'' [''n1''] (initialClassification [''n1''])
            (observedPod ''new'' ''n9'' ''Running''))) \<and>
   suspendedNodes (observePod ''new'' [''n1''] (initialClassification [''n1''])
            (observedPod ''new'' ''n9'' ''Running'')) = []"
proof -
  let ?old = "observedPod ''old'' ''n1'' ''Running''"
  let ?gone = "observedPod ''new'' ''n9'' ''Running''"
  have s: "suspendedNodes (classify ''new'' [labelledNode ''n1''] [?old]) = [''n1'']"
    by (simp add: example_defs pass_defs)
  have b: "index (NodeSelector (Spec ?old)) DOTMESH_NODE_LABEL = Some ''n1''"
    by (simp add: example_defs pass_defs)
  from suspension_accompanies_kill [where img = "''new''" and nodes = "[labelledNode ''n1'']"
      and dotmeshes = "[?old]"]
  have "\<forall>node \<in> set (suspendedNodes (classify ''new'' [labelledNode ''n1''] [?old])).
      \<exists>dotmesh \<in> set [?old].
        index (NodeSelector (Spec dotmesh)) DOTMESH_NODE_LABEL = Some node \<and>
        Name (Pod_ObjectMeta dotmesh) \<in> set (dotmeshesToKill (classify ''new'' [labelledNode ''n1''] [?old]))"
    by blast
  then have k: "Name (Pod_ObjectMeta ?old) \<in> set (dotmeshesToKill (classify ''new'' [labelledNode ''n1''] [?old]))"
    unfolding s by simp
  have g: "index (NodeSelector (Spec ?gone)) DOTMESH_NODE_LABEL = Some ''n9'' \<and>
    length (Containers (Spec ?gone)) = 1 \<and>
    Container_Image (Containers (Spec ?gone) ! 0) = ''new'' \<and>
    (NodeName (Spec ?gone) = '''' \<or> NodeName (Spec ?gone) = ''n9'') \<and>
    ''n9'' \<notin> set [''n1'']"
    by (simp add: example_defs pass_defs)
  from suspension_accompanies_kill [where img = "''new''" and validNodes = "[''n1'']"
      and st = "initialClassification [''n1'']" and dotmesh = ?gone and boundNode = "''n9''"] g
  have "Name (Pod_ObjectMeta ?gone) \<in>
     set (dotmeshesToKill (observePod ''new'' [''n1''] (initialClassification [''n1'']) ?gone)) \<and>
   suspendedNodes (observePod ''new'' [''n1''] (initialClassification [''n1'']) ?gone) =
     suspendedNodes (initialClassification [''n1''])"
    by blast
  then have "Name (Pod_ObjectMeta ?gone) \<in>
     set (dotmeshesToKill (observePod ''new'' [''n1''] (initialClassification [''n1'']) ?gone)) \<and>
   suspendedNodes (observePod ''new'' [''n1''] (initialClassification [''n1'']) ?gone) = []"
    by (simp add: initialClassification_def)
  with s b k show ?thesis by simp
qed

subsection \<open>What a pass deletes\<close>

lemma classify_isRunning:
  assumes "distinct (map (\<lambda>p. Name (Pod_ObjectMeta p)) pods)" and "p \<in> set pods"
  shows "isRunning (dotmeshIsRunning (classify img nodes pods)) (Name (Pod_ObjectMeta p)) =
           (Phase (Status p) = PodRunning)"
  using observePods_isRunning [OF assms] by (simp add: classify_eq isRunning_def)

lemma process_deletes_marked:
  assumes "nodeLister env = Inr nodes" and "podLister env = Inr pods"
    and "mset (rangeToKill env (dotmeshesToKill (classify img nodes pods))) =
           mset (dotmeshesToKill (classify img nodes pods))"
    and "PodsDelete name policy \<in> set (calls (process c img env))"
  shows "name \<in> set (dotmeshesToKill (classify img nodes pods))"
proof -
  from process_calls_shape [OF assms(1,2), of c img]
  obtain us names news where shape: "calls (process c img env) = us @ deleteCalls names @ createCalls c img news"
    and us: "\<forall>call \<in> set us. isNodesUpdate call"
    and alt: "names = [] \<or>
            names = deleted (dotmeshIsRunning (classify img nodes pods))
              (clusterMinimumPopulation (length (validNodesOf nodes)))
              (rangeToKill env (dotmeshesToKill (classify img nodes pods)))
              (runningPodCount (classify img nodes pods))"
    by blast
  have "PodsDelete name policy \<notin> set us"
    using us by (auto simp: isNodesUpdate_def)
  moreover have "PodsDelete name policy \<notin> set (createCalls c img news)"
    by (auto simp: createCalls_def)
  ultimately have "PodsDelete name policy \<in> set (deleteCalls names)"
    using assms(4) shape by auto
  then have "name \<in> set names" by (auto simp: deleteCalls_def)
  then have "name \<in> set (rangeToKill env (dotmeshesToKill (classify img nodes pods)))"
    using alt deleted_subset by fastforce
  then show ?thesis using assms(3) by (metis set_mset_mset)
qed

lemma process_deletes_not_running:
  assumes "nodeLister env = Inr nodes" and "podLister env = Inr pods"
    and "mset (rangeToKill env (dotmeshesToKill (classify img nodes pods))) =
           mset (dotmeshesToKill (classify img nodes pods))"
    and "outcome (process c img env) = Returned None"
    and "name \<in> set (dotmeshesToKill (classify img nodes pods))"
    and "\<not> isRunning (dotmeshIsRunning (classify img nodes pods)) name"
  shows "PodsDelete name DeletePropagationBackground \<in> set (calls (process c img env))"
proof -
  from process_calls_shape [OF assms(1,2), of c img] assms(4)
  obtain us news where shape: "calls (process c img env) =
      us @ deleteCalls (deleted (dotmeshIsRunning (classify img nodes pods))
              (clusterMinimumPopulation (length (validNodesOf nodes)))
              (rangeToKill env (dotmeshesToKill (classify img nodes pods)))
              (runningPodCount (classify img nodes pods))) @ createCalls c img news"
    by auto
  have "name \<in> set (rangeToKill env (dotmeshesToKill (classify img nodes pods)))"
    using assms(3,5) by (metis set_mset_mset)
  from deleted_not_running [OF this assms(6)] show ?thesis
    using shape by (auto simp: deleteCalls_def)
qed


text \<open>
  Claim C10. A pod as the factory builds it for a node, observed in a phase other than
  Failed while the node is valid, passes every check: it is not marked to kill, suspends
  no node, and its node is struck from undottedNodes. A pass over a cache that holds
  such a pod issues no delete for it.
\<close>

theorem created_pod_passes:
  assumes "phase \<noteq> PodFailed" and "node \<in> set validNodes"
  shows "dotmeshesToKill (observePod img validNodes st ((newDotmesh c img node)\<lparr>Status := \<lparr>Phase = phase\<rparr>\<rparr>)) =
           dotmeshesToKill st \<and>
         suspendedNodes (observePod img validNodes st ((newDotmesh c img node)\<lparr>Status := \<lparr>Phase = phase\<rparr>\<rparr>)) =
           suspendedNodes st \<and>
         undottedNodes (observePod img validNodes st ((newDotmesh c img node)\<lparr>Status := \<lparr>Phase = phase\<rparr>\<rparr>)) =
           removeAll node (undottedNodes st) \<and>
         (nodeLister env = Inr nodes \<and> podLister env = Inr dotmeshes \<and>
          validNodes = validNodesOf nodes \<and>
          (newDotmesh c img node)\<lparr>Status := \<lparr>Phase = phase\<rparr>\<rparr> \<in> set dotmeshes \<and>
          distinct (map (\<lambda>dotmesh. Name (Pod_ObjectMeta dotmesh)) dotmeshes) \<and>
          mset (rangeToKill env (dotmeshesToKill (classify img nodes dotmeshes))) =
            mset (dotmeshesToKill (classify img nodes dotmeshes)) \<longrightarrow>
          PodsDelete (''dotmesh-'' @ node) policy \<notin> set (calls (process c' img env)))"
proof -
  let ?p = "(newDotmesh c img node)\<lparr>Status := \<lparr>Phase = phase\<rparr>\<rparr>"
  have b: "index (NodeSelector (Spec ?p)) DOTMESH_NODE_LABEL = Some node"
    by (simp add: newDotmesh_def index_def)
  have h: "healthy img validNodes ?p"
    using assms by (simp add: healthy_def newDotmesh_def newDotmeshContainer_def index_def)
  have name: "Name (Pod_ObjectMeta ?p) = ''dotmesh-'' @ node"
    by (simp add: newDotmesh_def)
  have "PodsDelete (''dotmesh-'' @ node) policy \<notin> set (calls (process c' img env))"
    if l: "nodeLister env = Inr nodes" "podLister env = Inr dotmeshes"
      and v: "validNodes = validNodesOf nodes" and m: "?p \<in> set dotmeshes"
      and d: "distinct (map (\<lambda>dotmesh. Name (Pod_ObjectMeta dotmesh)) dotmeshes)"
      and r: "mset (rangeToKill env (dotmeshesToKill (classify img nodes dotmeshes))) =
            mset (dotmeshesToKill (classify img nodes dotmeshes))"
  proof
    assume "PodsDelete (''dotmesh-'' @ node) policy \<in> set (calls (process c' img env))"
    from process_deletes_marked [OF l r this]
    obtain q where q: "q \<in> set dotmeshes" "Name (Pod_ObjectMeta q) = ''dotmesh-'' @ node"
      "\<not> healthy img (validNodesOf nodes) q"
      by (auto simp: classify_toKill)
    have "q = ?p"
      using d q(1,2) m name by (metis (mono_tags, lifting) distinct_map inj_onD)
    then show False using q(3) h v by simp
  qed
  then show ?thesis
    using observePod_healthy [OF h b, of st] by blast
qed

lemma minimum_examples:
  "clusterMinimumPopulation (Suc 0) = 0"
  "clusterMinimumPopulation (Suc (Suc 0)) = 1"
  by (simp_all add: clusterMinimumPopulation_def roundToFloat32_def)

text \<open>The theorem at a pending pod built for the labelled node n1.\<close>

theorem created_pod_passes_witness:
  "''Pending'' \<noteq> PodFailed \<and> ''n1'' \<in> set (validNodesOf [labelledNode ''n1'']) \<and>
   undottedNodes (observePod ''new'' (validNodesOf [labelledNode ''n1''])
       (initialClassification [''n1''])
       ((newDotmesh defaultController ''new'' ''n1'')\<lparr>Status := \<lparr>Phase = ''Pending''\<rparr>\<rparr>)) = [] \<and>
   PodsDelete ''dotmesh-n1'' DeletePropagationBackground \<notin>
     set (calls (process defaultController ''new''
       (exampleCluster [labelledNode ''n1'']
          [(newDotmesh defaultController ''new'' ''n1'')\<lparr>Status := \<lparr>Phase = ''Pending''\<rparr>\<rparr>])))"
proof -
  let ?p = "(newDotmesh defaultController ''new'' ''n1'')\<lparr>Status := \<lparr>Phase = ''Pending''\<rparr>\<rparr>"
  let ?env = "exampleCluster [labelledNode ''n1''] [?p]"
  have v: "validNodesOf [labelledNode ''n1''] = [''n1'']"
    by (simp add: example_defs pass_defs)
  have h1: "''Pending'' \<noteq> PodFailed" by (simp add: PodFailed_def)
  have h2: "''n1'' \<in> set (validNodesOf [labelledNode ''n1''])" by (simp add: v)
  have h3: "nodeLister ?env = Inr [labelledNode ''n1''] \<and> podLister ?env = Inr [?p] \<and>
          validNodesOf [labelledNode ''n1''] = validNodesOf [labelledNode ''n1''] \<and>
          ?p \<in> set [?p] \<and>
          distinct (map (\<lambda>dotmesh. Name (Pod_ObjectMeta dotmesh)) [?p]) \<and>
          mset (rangeToKill ?env (dotmeshesToKill (classify ''new'' [labelledNode ''n1''] [?p]))) =
            mset (dotmeshesToKill (classify ''new'' [labelledNode ''n1''] [?p]))"
    by (simp add: exampleCluster_def)
  from created_pod_passes [OF h1 h2, where img = "''new''" and c = defaultController
      and st = "initialClassification [''n1'']" and env = ?env and nodes = "[labelledNode ''n1'']"
      and dotmeshes = "[?p]" and policy = DeletePropagationBackground and c' = defaultController] h3
  have "undottedNodes (observePod ''new'' (validNodesOf [labelledNode ''n1''])
       (initialClassification [''n1'']) ?p) = removeAll ''n1'' (undottedNodes (initialClassification [''n1''])) \<and>
     PodsDelete (''dotmesh-'' @ ''n1'') DeletePropagationBackground \<notin>
       set (calls (process defaultController ''new'' ?env))"
    by blast
  then show ?thesis using h1 h2 by (simp add: initialClassification_def)
qed

lemma healthy_iff:
  "healthy img valid p \<longleftrightarrow>
     (\<exists>boundNode. index (NodeSelector (Spec p)) DOTMESH_NODE_LABEL = Some boundNode \<and>
        boundNode \<in> set valid \<and>
        length (Containers (Spec p)) = 1 \<and>
        Container_Image (Containers (Spec p) ! 0) = img \<and>
        (NodeName (Spec p) = '''' \<or> NodeName (Spec p) = boundNode) \<and>
        Phase (Status p) \<noteq> PodFailed)"
  by (auto simp: healthy_def split: option.splits)

text \<open>
  Claim C5, amended. Every observed pod that the pass does not mark to kill is bound by the
  identity label to a node of validNodes, has exactly one container, with the configured
  image, is scheduled nowhere or on its bound node, and is not in phase Failed. After a
  pass that reached the deletion step, an observed pod for which no delete was issued
  either has these properties or is a running pod that is marked to kill and was spared by
  the rate limit.
\<close>

theorem survivor_healthy_or_spared:
  assumes "nodeLister env = Inr nodes" and "podLister env = Inr dotmeshes"
    and "distinct (map (\<lambda>dotmesh. Name (Pod_ObjectMeta dotmesh)) dotmeshes)"
    and "mset (rangeToKill env (dotmeshesToKill (classify img nodes dotmeshes))) =
           mset (dotmeshesToKill (classify img nodes dotmeshes))"
    and "dotmesh \<in> set dotmeshes"
  shows "(Name (Pod_ObjectMeta dotmesh) \<notin> set (dotmeshesToKill (classify img nodes dotmeshes)) \<longrightarrow>
           (\<exists>boundNode. index (NodeSelector (Spec dotmesh)) DOTMESH_NODE_LABEL = Some boundNode \<and>
              boundNode \<in> set (validNodesOf nodes) \<and>
              length (Containers (Spec dotmesh)) = 1 \<and>
              Container_Image (Containers (Spec dotmesh) ! 0) = img \<and>
              (NodeName (Spec dotmesh) = '''' \<or> NodeName (Spec dotmesh) = boundNode) \<and>
              Phase (Status dotmesh) \<noteq> PodFailed)) \<and>
         (outcome (process c img env) = Returned None \<and>
          PodsDelete (Name (Pod_ObjectMeta dotmesh)) DeletePropagationBackground \<notin>
            set (calls (process c img env)) \<longrightarrow>
           (\<exists>boundNode. index (NodeSelector (Spec dotmesh)) DOTMESH_NODE_LABEL = Some boundNode \<and>
              boundNode \<in> set (validNodesOf nodes) \<and>
              length (Containers (Spec dotmesh)) = 1 \<and>
              Container_Image (Containers (Spec dotmesh) ! 0) = img \<and>
              (NodeName (Spec dotmesh) = '''' \<or> NodeName (Spec dotmesh) = boundNode) \<and>
              Phase (Status dotmesh) \<noteq> PodFailed) \<or>
           Name (Pod_ObjectMeta dotmesh) \<in> set (dotmeshesToKill (classify img nodes dotmeshes)) \<and>
           Phase (Status dotmesh) = PodRunning)"
proof -
  let ?name = "Name (Pod_ObjectMeta dotmesh)"
  let ?kill = "dotmeshesToKill (classify img nodes dotmeshes)"
  have unmarked: "healthy img (validNodesOf nodes) dotmesh" if "?name \<notin> set ?kill"
    using that assms(5) by (auto simp: classify_toKill)
  have spared: "Phase (Status dotmesh) = PodRunning"
    if "?name \<in> set ?kill" and "outcome (process c img env) = Returned None"
      and "PodsDelete ?name DeletePropagationBackground \<notin> set (calls (process c img env))"
  proof (rule ccontr)
    assume "Phase (Status dotmesh) \<noteq> PodRunning"
    then have "\<not> isRunning (dotmeshIsRunning (classify img nodes dotmeshes)) ?name"
      using classify_isRunning [OF assms(3,5)] by simp
    from process_deletes_not_running [OF assms(1,2,4) that(2,1) this] that(3)
    show False by simp
  qed
  show ?thesis
    using unmarked spared unfolding healthy_iff by blast
qed

text \<open>The theorem at the spared pod of two running pods with an old image.\<close>

theorem survivor_healthy_or_spared_witness:
  "distinct (map (\<lambda>dotmesh. Name (Pod_ObjectMeta dotmesh))
      [observedPod ''old'' ''n1'' ''Running'', observedPod ''old'' ''n2'' ''Running'']) \<and>
   outcome (process defaultController ''new''
     (exampleCluster [labelledNode ''n1'', labelledNode ''n2'']
        [observedPod ''old'' ''n1'' ''Running'', observedPod ''old'' ''n2'' ''Running''])) = Returned None \<and>
   PodsDelete ''dotmesh-n1'' DeletePropagationBackground \<notin>
     set (calls (process defaultController ''new''
       (exampleCluster [labelledNode ''n1'', labelledNode ''n2'']
          [observedPod ''old'' ''n1'' ''Running'', observedPod ''old'' ''n2'' ''Running'']))) \<and>
   Container_Image (Containers (Spec (observedPod ''old'' ''n1'' ''Running'')) ! 0) \<noteq> ''new'' \<and>
   Name (Pod_ObjectMeta (observedPod ''old'' ''n1'' ''Running'')) \<in>
     set (dotmeshesToKill (classify ''new'' [labelledNode ''n1'', labelledNode ''n2'']
        [observedPod ''old'' ''n1'' ''Running'', observedPod ''old'' ''n2'' ''Running''])) \<and>
   Phase (Status (observedPod ''old'' ''n1'' ''Running'')) = PodRunning"
proof -
  let ?nodes = "[labelledNode ''n1'', labelledNode ''n2'']"
  let ?p = "observedPod ''old'' ''n1'' ''Running''"
  let ?pods = "[?p, observedPod ''old'' ''n2'' ''Running'']"
  let ?env = "exampleCluster ?nodes ?pods"
  have h1: "nodeLister ?env = Inr ?nodes" and h2: "podLister ?env = Inr ?pods"
    by (simp_all add: exampleCluster_def)
  have h3: "distinct (map (\<lambda>dotmesh. Name (Pod_ObjectMeta dotmesh)) ?pods)"
    by (simp add: example_defs)
  have h4: "mset (rangeToKill ?env (dotmeshesToKill (classify ''new'' ?nodes ?pods))) =
      mset (dotmeshesToKill (classify ''new'' ?nodes ?pods))"
    by (simp add: exampleCluster_def)
  have h5: "?p \<in> set ?pods" by simp
  have o: "outcome (process defaultController ''new'' ?env) = Returned None"
    by (simp add: example_defs pass_defs minimum_examples)
  have cs: "calls (process defaultController ''new'' ?env) =
      [PodsDelete ''dotmesh-n2'' DeletePropagationBackground]"
    by (simp add: example_defs pass_defs minimum_examples)
  have n: "Name (Pod_ObjectMeta ?p) = ''dotmesh-n1''" by (simp add: example_defs)
  have i: "Container_Image (Containers (Spec ?p) ! 0) \<noteq> ''new''" by (simp add: example_defs)
  have nd: "PodsDelete (Name (Pod_ObjectMeta ?p)) DeletePropagationBackground \<notin>
      set (calls (process defaultController ''new'' ?env))"
    by (simp add: cs n)
  from survivor_healthy_or_spared [OF h1 h2 h3 h4 h5, of defaultController] o nd i
  have "Name (Pod_ObjectMeta ?p) \<in> set (dotmeshesToKill (classify ''new'' ?nodes ?pods)) \<and>
      Phase (Status ?p) = PodRunning"
    by blast
  with h3 o nd i show ?thesis by (simp add: n)
qed

text \<open>
  Claim C5 as stated fails. Two labelled nodes, two running pods with the image old while
  the configured image is new, an API that never fails: the pass returns nil, logs no
  error, deletes dotmesh-n2 only, and dotmesh-n1 survives with the image old.
\<close>

theorem spared_pod_counterexample:
  "outcome (process defaultController ''new''
     (exampleCluster [labelledNode ''n1'', labelledNode ''n2'']
        [observedPod ''old'' ''n1'' ''Running'', observedPod ''old'' ''n2'' ''Running''])) = Returned None \<and>
   logged (process defaultController ''new''
     (exampleCluster [labelledNode ''n1'', labelledNode ''n2'']
        [observedPod ''old'' ''n1'' ''Running'', observedPod ''old'' ''n2'' ''Running''])) = [] \<and>
   calls (process defaultController ''new''
     (exampleCluster [labelledNode ''n1'', labelledNode ''n2'']
        [observedPod ''old'' ''n1'' ''Running'', observedPod ''old'' ''n2'' ''Running''])) =
     [PodsDelete ''dotmesh-n2'' DeletePropagationBackground] \<and>
   Name (Pod_ObjectMeta (observedPod ''old'' ''n1'' ''Running'')) = ''dotmesh-n1'' \<and>
   Container_Image (Containers (Spec (observedPod ''old'' ''n1'' ''Running'')) ! 0) = ''old'' \<and>
   ''old'' \<noteq> ''new''"
  by (simp add: example_defs pass_defs minimum_examples)

subsection \<open>Pods bound to a node that is gone\<close>




subsection \<open>A converged cluster\<close>

lemma labelNodes_labelled:
  "\<forall>node \<in> set nodes.
     index (Labels (Node_ObjectMeta node)) DOTMESH_NODE_LABEL = Some (Name (Node_ObjectMeta node)) \<Longrightarrow>
   labelNodes srv tr nodes = (None, tr)"
  by (induction nodes arbitrary: tr) simp_all

lemma validNodesOf_labelled:
  assumes "\<forall>node \<in> set nodes.
     index (Labels (Node_ObjectMeta node)) DOTMESH_NODE_LABEL = Some (Name (Node_ObjectMeta node))"
  shows "set (validNodesOf nodes) = (\<lambda>node. Name (Node_ObjectMeta node)) ` set nodes"
  using assms by (auto simp: set_validNodesOf indexOrZero_def intro!: image_eqI)

text \<open>
  Claim C4, amended. When every cached node carries the identity label with its own name,
  every cached pod passes all checks of the classification, and every node is the bound
  node of some cached pod, a pass issues no API call, logs no error and returns nil; so
  further passes over the unchanged caches are silent as well.
\<close>

theorem converged_pass_is_silent:
  assumes "nodeLister env = Inr nodes" and "podLister env = Inr dotmeshes"
    and "\<forall>node \<in> set nodes.
           index (Labels (Node_ObjectMeta node)) DOTMESH_NODE_LABEL = Some (Name (Node_ObjectMeta node))"
    and "\<forall>dotmesh \<in> set dotmeshes. healthy img (validNodesOf nodes) dotmesh"
    and "\<forall>node \<in> set nodes. \<exists>dotmesh \<in> set dotmeshes.
           index (NodeSelector (Spec dotmesh)) DOTMESH_NODE_LABEL = Some (Name (Node_ObjectMeta node))"
    and "mset (rangeToKill env (dotmeshesToKill (classify img nodes dotmeshes))) =
           mset (dotmeshesToKill (classify img nodes dotmeshes))"
    and "mset (rangeUndotted env (undottedNodes (classify img nodes dotmeshes))) =
           mset (undottedNodes (classify img nodes dotmeshes))"
  shows "process c img env = \<lparr>outcome = Returned None, calls = [], logged = []\<rparr>"
proof -
  let ?cl = "classify img nodes dotmeshes"
  have l: "labelNodes (api env) [] nodes = (None, [])"
    using assms(3) by (rule labelNodes_labelled)
  have "set (dotmeshesToKill ?cl) = {}"
    using assms(4) by (auto simp: classify_toKill)
  then have k: "rangeToKill env (dotmeshesToKill ?cl) = []"
    using assms(6) by simp
  have "set (undottedNodes ?cl) =
      set (validNodesOf nodes) -
      {b. \<exists>p \<in> set dotmeshes. index (NodeSelector (Spec p)) DOTMESH_NODE_LABEL = Some b \<and>
             healthy img (validNodesOf nodes) p}"
    by (simp add: classify_eq observePods_undotted initialClassification_def)
  then have "set (undottedNodes ?cl) = {}"
    using assms(4,5) validNodesOf_labelled [OF assms(3)] by auto
  then have u: "rangeUndotted env (undottedNodes ?cl) = []"
    using assms(7) by simp
  show ?thesis
    using assms(1,2) l k u by (simp add: process_def reconcile_def Let_def)
qed

text \<open>The theorem at one labelled node with its healthy running pod.\<close>

theorem converged_pass_is_silent_witness:
  "index (Labels (Node_ObjectMeta (labelledNode ''n1''))) DOTMESH_NODE_LABEL =
     Some (Name (Node_ObjectMeta (labelledNode ''n1''))) \<and>
   healthy ''new'' (validNodesOf [labelledNode ''n1'']) (observedPod ''new'' ''n1'' ''Running'') \<and>
   index (NodeSelector (Spec (observedPod ''new'' ''n1'' ''Running''))) DOTMESH_NODE_LABEL =
     Some (Name (Node_ObjectMeta (labelledNode ''n1''))) \<and>
   process defaultController ''new''
     (exampleCluster [labelledNode ''n1''] [observedPod ''new'' ''n1'' ''Running'']) =
     \<lparr>outcome = Returned None, calls = [], logged = []\<rparr>"
proof -
  let ?nodes = "[labelledNode ''n1'']"
  let ?p = "observedPod ''new'' ''n1'' ''Running''"
  let ?env = "exampleCluster ?nodes [?p]"
  have h1: "nodeLister ?env = Inr ?nodes" and h2: "podLister ?env = Inr [?p]"
    by (simp_all add: exampleCluster_def)
  have a: "index (Labels (Node_ObjectMeta (labelledNode ''n1''))) DOTMESH_NODE_LABEL =
     Some (Name (Node_ObjectMeta (labelledNode ''n1'')))"
    by (simp add: example_defs pass_defs)
  have b: "healthy ''new'' (validNodesOf ?nodes) ?p"
    by (simp add: healthy_def example_defs pass_defs)
  have d: "index (NodeSelector (Spec ?p)) DOTMESH_NODE_LABEL =
     Some (Name (Node_ObjectMeta (labelledNode ''n1'')))"
    by (simp add: example_defs pass_defs)
  have h3: "\<forall>node \<in> set ?nodes.
           index (Labels (Node_ObjectMeta node)) DOTMESH_NODE_LABEL = Some (Name (Node_ObjectMeta node))"
    using a by simp
  have h4: "\<forall>dotmesh \<in> set [?p]. healthy ''new'' (validNodesOf ?nodes) dotmesh"
    using b by simp
  have h5: "\<forall>node \<in> set ?nodes. \<exists>dotmesh \<in> set [?p].
           index (NodeSelector (Spec dotmesh)) DOTMESH_NODE_LABEL = Some (Name (Node_ObjectMeta node))"
    using d by simp
  have h6: "mset (rangeToKill ?env (dotmeshesToKill (classify ''new'' ?nodes [?p]))) =
           mset (dotmeshesToKill (classify ''new'' ?nodes [?p]))"
    and h7: "mset (rangeUndotted ?env (undottedNodes (classify ''new'' ?nodes [?p]))) =
           mset (undottedNodes (classify ''new'' ?nodes [?p]))"
    by (simp_all add: exampleCluster_def)
  from converged_pass_is_silent [OF h1 h2 h3 h4 h5 h6 h7, of defaultController] a b d
  show ?thesis by blast
qed

text \<open>
  Claim C4 as stated fails. One labelled node n1 and a pending pod on it with an old
  image: the first pass deletes the pod and, the node being suspended, creates nothing.
  Once that delete has taken effect and nothing else has changed, the second pass creates
  dotmesh-n1. (Over the caches left as they were, the second pass would repeat the
  delete.)
\<close>

theorem second_pass_counterexample:
  "calls (process defaultController ''new''
      (exampleCluster [labelledNode ''n1''] [observedPod ''old'' ''n1'' ''Pending''])) =
     [PodsDelete ''dotmesh-n1'' DeletePropagationBackground] \<and>
   settled [labelledNode ''n1''] [observedPod ''old'' ''n1'' ''Pending'']
     [PodsDelete ''dotmesh-n1'' DeletePropagationBackground] = ([labelledNode ''n1''], []) \<and>
   calls (process defaultController ''new'' (exampleCluster [labelledNode ''n1''] [])) =
     [PodsCreate (newDotmesh defaultController ''new'' ''n1'')]"
  by (simp add: example_defs pass_defs minimum_examples settled_def)

subsection \<open>Cold start\<close>

text \<open>
  Claim C2, evaluated. Three nodes n1, n2, n3 without the identity label, no pods, an API
  that never fails. The pass sends the three label updates. It then reads the identity
  label from the cached nodes, which the updates of the copies did not change: validNodes
  is the set of the empty string alone, and the pass creates one pod, named dotmesh- and
  bound to the empty identity, instead of the three pods dotmesh-n1, dotmesh-n2, dotmesh-n3.
\<close>

theorem cold_start_creates_one_pod:
  "outcome (process c img (exampleCluster
      [exampleNode ''n1'' (Some Map.empty), exampleNode ''n2'' (Some Map.empty),
       exampleNode ''n3'' (Some Map.empty)] [])) = Returned None \<and>
   calls (process c img (exampleCluster
      [exampleNode ''n1'' (Some Map.empty), exampleNode ''n2'' (Some Map.empty),
       exampleNode ''n3'' (Some Map.empty)] [])) =
     [NodesUpdate (labelledNode ''n1''), NodesUpdate (labelledNode ''n2''),
      NodesUpdate (labelledNode ''n3''), PodsCreate (newDotmesh c img '''')] \<and>
   validNodesOf [exampleNode ''n1'' (Some Map.empty), exampleNode ''n2'' (Some Map.empty),
       exampleNode ''n3'' (Some Map.empty)] = [''''] \<and>
   Name (Pod_ObjectMeta (newDotmesh c img '''')) = ''dotmesh-'' \<and>
   NodeSelector (Spec (newDotmesh c img '''')) = Some [DOTMESH_NODE_LABEL \<mapsto> '''']"
  by (simp add: example_defs pass_defs minimum_examples)

subsection \<open>Answers of the API\<close>

lemma labelNodes_extends: "\<exists>us. snd (labelNodes srv tr nodes) = tr @ us"
  using labelNodes_calls [of srv tr nodes] by blast

lemma labelNodes_failure:
  "labelNodes srv tr nodes = (r, tr') \<Longrightarrow> length tr \<le> i \<Longrightarrow> i < length tr' \<Longrightarrow>
   srv (take i tr') (tr' ! i) = Some err \<Longrightarrow>
   r = Some (Returned (Some err)) \<and> Suc i = length tr'"
proof (induction nodes arbitrary: tr)
  case Nil
  then show ?case by simp
next
  case (Cons node nodes)
  show ?case
  proof (cases "case index (Labels (Node_ObjectMeta node)) DOTMESH_NODE_LABEL of
            None \<Rightarrow> True | Some labelName \<Rightarrow> labelName \<noteq> Name (Node_ObjectMeta node)")
    case False
    then have "labelNodes srv tr nodes = (r, tr')" using Cons.prems(1) by simp
    from Cons.IH [OF this Cons.prems(2,3,4)] show ?thesis .
  next
    case True
    show ?thesis
    proof (cases "assign (Labels (Node_ObjectMeta node)) DOTMESH_NODE_LABEL (Name (Node_ObjectMeta node))")
      case (Inl p)
      then have "tr' = tr" using True Cons.prems(1) by simp
      then show ?thesis using Cons.prems(2,3) by simp
    next
      case (Inr labels)
      let ?call = "NodesUpdate (relabelled node labels)"
      show ?thesis
      proof (cases "srv tr ?call")
        case (Some e)
        then have r: "r = Some (Returned (Some e))" and tr': "tr' = tr @ [?call]"
          using True Inr Cons.prems(1) by simp_all
        then have "i = length tr" using Cons.prems(2,3) by simp
        then show ?thesis using r tr' Some Cons.prems(4) by simp
      next
        case None
        then have rec: "labelNodes srv (tr @ [?call]) nodes = (r, tr')"
          using True Inr Cons.prems(1) by simp
        from labelNodes_extends [of srv "tr @ [?call]" nodes] rec
        obtain us where us: "tr' = (tr @ [?call]) @ us" by auto
        have "i \<noteq> length tr"
        proof
          assume "i = length tr"
          then have "take i tr' = tr" "tr' ! i = ?call" using us by (simp_all add: nth_append)
          then show False using None Cons.prems(4) by simp
        qed
        then have "length (tr @ [?call]) \<le> i" using Cons.prems(2) by simp
        from Cons.IH [OF rec this Cons.prems(3,4)] show ?thesis .
      qed
    qed
  qed
qed

lemma labelNodes_same_answers:
  "\<forall>tr node. srv' tr (NodesUpdate node) = srv tr (NodesUpdate node) \<Longrightarrow>
   labelNodes srv' tr nodes = labelNodes srv tr nodes"
  by (induction nodes arbitrary: tr) (simp_all split: sum.splits option.splits)

lemma deletePods_logged:
  "deletePods srv R m names (tr, log, pop) = (tr', log', pop') \<Longrightarrow>
   set log \<subseteq> set log' \<and>
   (\<forall>i err. length tr \<le> i \<and> i < length tr' \<and> srv (take i tr') (tr' ! i) = Some err \<longrightarrow>
      err \<in> set log')"
proof (induction names arbitrary: tr log pop)
  case Nil
  then show ?case by auto
next
  case (Cons name names)
  show ?case
  proof (cases "\<not> isRunning R name \<or> pop > m")
    case False
    then have "deletePods srv R m names (tr, log, pop) = (tr', log', pop')"
      using Cons.prems by simp
    from Cons.IH [OF this] show ?thesis .
  next
    case True
    let ?call = "PodsDelete name DeletePropagationBackground"
    let ?log = "case srv tr ?call of Some err \<Rightarrow> log @ [err] | None \<Rightarrow> log"
    let ?pop = "if isRunning R name then pop - 1 else pop"
    have rec: "deletePods srv R m names (tr @ [?call], ?log, ?pop) = (tr', log', pop')"
      using True Cons.prems by simp
    from Cons.IH [OF rec]
    have ih1: "set ?log \<subseteq> set log'"
      and ih2: "\<forall>i err. length (tr @ [?call]) \<le> i \<and> i < length tr' \<and>
          srv (take i tr') (tr' ! i) = Some err \<longrightarrow> err \<in> set log'"
      by blast+
    have ext: "tr' = (tr @ [?call]) @ deleteCalls (deleted R m names ?pop)"
      using deletePods_calls [of srv R m names "tr @ [?call]" ?log ?pop] rec
      by (simp add: deleteCalls_def)
    have "set log \<subseteq> set log'" using ih1 by (auto split: option.splits)
    moreover have "err \<in> set log'"
      if "length tr \<le> i" "i < length tr'" "srv (take i tr') (tr' ! i) = Some err" for i err
    proof (cases "i = length tr")
      case True
      then have "take i tr' = tr" "tr' ! i = ?call" using ext by (simp_all add: nth_append)
      then have "srv tr ?call = Some err" using that(3) by simp
      then show ?thesis using ih1 by auto
    next
      case False
      then have "length (tr @ [?call]) \<le> i" using that(1) by simp
      then show ?thesis using ih2 that(2,3) by blast
    qed
    ultimately show ?thesis by blast
  qed
qed

lemma createPods_logged:
  "createPods c img srv suspended nodes (tr, log) = (tr', log') \<Longrightarrow>
   set log \<subseteq> set log' \<and>
   (\<forall>i err. length tr \<le> i \<and> i < length tr' \<and> srv (take i tr') (tr' ! i) = Some err \<longrightarrow>
      err \<in> set log')"
proof (induction nodes arbitrary: tr log)
  case Nil
  then show ?case by auto
next
  case (Cons node nodes)
  show ?case
  proof (cases "node \<in> set suspended")
    case True
    then have "createPods c img srv suspended nodes (tr, log) = (tr', log')"
      using Cons.prems by simp
    from Cons.IH [OF this] show ?thesis .
  next
    case False
    let ?call = "PodsCreate (newDotmesh c img node)"
    let ?log = "case srv tr ?call of Some err \<Rightarrow> log @ [err] | None \<Rightarrow> log"
    have rec: "createPods c img srv suspended nodes (tr @ [?call], ?log) = (tr', log')"
      using False Cons.prems by simp
    from Cons.IH [OF rec]
    have ih1: "set ?log \<subseteq> set log'"
      and ih2: "\<forall>i err. length (tr @ [?call]) \<le> i \<and> i < length tr' \<and>
          srv (take i tr') (tr' ! i) = Some err \<longrightarrow> err \<in> set log'"
      by blast+
    have ext: "tr' = (tr @ [?call]) @ createCalls c img (created suspended nodes)"
      using createPods_calls [of c img srv suspended nodes "tr @ [?call]" ?log] rec
      by (simp add: createCalls_def)
    have "set log \<subseteq> set log'" using ih1 by (auto split: option.splits)
    moreover have "err \<in> set log'"
      if "length tr \<le> i" "i < length tr'" "srv (take i tr') (tr' ! i) = Some err" for i err
    proof (cases "i = length tr")
      case True
      then have "take i tr' = tr" "tr' ! i = ?call" using ext by (simp_all add: nth_append)
      then have "srv tr ?call = Some err" using that(3) by simp
      then show ?thesis using ih1 by auto
    next
      case False
      then have "length (tr @ [?call]) \<le> i" using that(1) by simp
      then show ?thesis using ih2 that(2,3) by blast
    qed
    ultimately show ?thesis by blast
  qed
qed

lemma reconcile_calls:
  "calls (reconcile c img env nodes pods us) =
     us @
     deleteCalls (deleted (dotmeshIsRunning (classify img nodes pods))
        (clusterMinimumPopulation (length (validNodesOf nodes)))
        (rangeToKill env (dotmeshesToKill (classify img nodes pods)))
        (runningPodCount (classify img nodes pods))) @
     createCalls c img (created (suspendedNodes (classify img nodes pods))
        (rangeUndotted env (undottedNodes (classify img nodes pods))))"
  by (simp add: reconcile_def Let_def createPods_calls deletePods_calls deleteCalls_def createCalls_def)

lemma reconcile_outcome: "outcome (reconcile c img env nodes pods us) = Returned None"
  by (simp add: reconcile_def Let_def)

lemma not_update_deleteCalls: "call \<in> set (deleteCalls names) \<Longrightarrow> \<not> isNodesUpdate call"
  by (auto simp: deleteCalls_def isNodesUpdate_def)

lemma not_update_createCalls: "call \<in> set (createCalls c img news) \<Longrightarrow> \<not> isNodesUpdate call"
  by (auto simp: createCalls_def isNodesUpdate_def)

text \<open>After the updates of the labelling loop, a pass issues no further update.\<close>

lemma process_after_labelling:
  assumes "nodeLister env = Inr nodes" and "labelNodes (api env) [] nodes = (r, us)"
  shows "\<exists>rest. calls (process c img env) = us @ rest \<and>
           (\<forall>call \<in> set rest. \<not> isNodesUpdate call) \<and>
           (\<forall>stop. r = Some stop \<longrightarrow> process c img env = \<lparr>outcome = stop, calls = us, logged = []\<rparr>)"
proof (cases r)
  case (Some stop)
  then have "process c img env = \<lparr>outcome = stop, calls = us, logged = []\<rparr>"
    using assms by (simp add: process_def)
  then show ?thesis using Some by simp
next
  case None
  show ?thesis
  proof (cases "podLister env")
    case (Inl e)
    then have "calls (process c img env) = us @ []"
      using assms None by (simp add: process_def)
    then show ?thesis using None by auto
  next
    case (Inr pods)
    then have "process c img env = reconcile c img env nodes pods us"
      using assms None by (simp add: process_def)
    then show ?thesis
      using None reconcile_calls [of c img env nodes pods us]
        not_update_deleteCalls not_update_createCalls
      by (metis Un_iff option.distinct(1) set_append)
  qed
qed

lemma process_update_failure:
  assumes i: "i < length (calls (process c img env))"
    and upd: "isNodesUpdate (calls (process c img env) ! i)"
    and ans: "api env (take i (calls (process c img env))) (calls (process c img env) ! i) = Some err"
  shows "outcome (process c img env) = Returned (Some err) \<and>
         Suc i = length (calls (process c img env)) \<and>
         (\<forall>call \<in> set (calls (process c img env)). isNodesUpdate call) \<and>
         logged (process c img env) = []"
proof (cases "nodeLister env")
  case (Inl e)
  then have "calls (process c img env) = []" by (simp add: process_def)
  then show ?thesis using i by simp
next
  case (Inr nodes)
  obtain r us where l: "labelNodes (api env) [] nodes = (r, us)"
    by (cases "labelNodes (api env) [] nodes")
  from process_after_labelling [OF Inr l, of c img]
  obtain rest where shape: "calls (process c img env) = us @ rest"
    and rest: "\<forall>call \<in> set rest. \<not> isNodesUpdate call"
    and stop: "\<forall>stop. r = Some stop \<longrightarrow> process c img env = \<lparr>outcome = stop, calls = us, logged = []\<rparr>"
    by blast
  have iu: "i < length us"
  proof (rule ccontr)
    assume "\<not> i < length us"
    then have "calls (process c img env) ! i \<in> set rest"
      using shape i by (auto simp: nth_append)
    then show False using rest upd by blast
  qed
  then have "take i (calls (process c img env)) = take i us" "calls (process c img env) ! i = us ! i"
    using shape by (simp_all add: nth_append)
  then have "api env (take i us) (us ! i) = Some err" using ans by simp
  from labelNodes_failure [OF l _ iu this]
  have r: "r = Some (Returned (Some err))" and last: "Suc i = length us" by simp_all
  then have p: "process c img env = \<lparr>outcome = Returned (Some err), calls = us, logged = []\<rparr>"
    using stop by simp
  have "\<forall>call \<in> set us. isNodesUpdate call"
    using labelNodes_calls [of "api env" "[]" nodes] l by auto
  then show ?thesis using p last by simp
qed

lemma process_failure_logged:
  assumes o: "outcome (process c img env) = Returned None"
    and i: "i < length (calls (process c img env))"
    and upd: "\<not> isNodesUpdate (calls (process c img env) ! i)"
    and ans: "api env (take i (calls (process c img env))) (calls (process c img env) ! i) = Some err"
  shows "err \<in> set (logged (process c img env))"
proof -
  obtain nodes where n: "nodeLister env = Inr nodes"
    using o by (cases "nodeLister env") (auto simp: process_def)
  obtain r us where l: "labelNodes (api env) [] nodes = (r, us)"
    by (cases "labelNodes (api env) [] nodes")
  have r: "r = None"
  proof (cases r)
    case (Some stop)
    then have "outcome (process c img env) = stop" using n l by (simp add: process_def)
    then show ?thesis using labelNodes_stop [of "api env" "[]" nodes stop] l Some o by simp
  qed simp
  obtain pods where p: "podLister env = Inr pods"
    using o n l r by (cases "podLister env") (auto simp: process_def)
  let ?cl = "classify img nodes pods"
  obtain tr1 log1 pop1 where d: "deletePods (api env) (dotmeshIsRunning ?cl)
      (clusterMinimumPopulation (length (validNodesOf nodes)))
      (rangeToKill env (dotmeshesToKill ?cl)) (us, [], runningPodCount ?cl) = (tr1, log1, pop1)"
    by (metis prod_cases3)
  obtain tr2 log2 where cr: "createPods c img (api env) (suspendedNodes ?cl)
      (rangeUndotted env (undottedNodes ?cl)) (tr1, log1) = (tr2, log2)"
    by (cases "createPods c img (api env) (suspendedNodes ?cl)
      (rangeUndotted env (undottedNodes ?cl)) (tr1, log1)")
  have P: "calls (process c img env) = tr2" "logged (process c img env) = log2"
    using n l r p d cr by (simp_all add: process_def reconcile_def Let_def)
  have tr1: "tr1 = us @ deleteCalls (deleted (dotmeshIsRunning ?cl)
      (clusterMinimumPopulation (length (validNodesOf nodes)))
      (rangeToKill env (dotmeshesToKill ?cl)) (runningPodCount ?cl))"
    using deletePods_calls [of "api env" "dotmeshIsRunning ?cl"
        "clusterMinimumPopulation (length (validNodesOf nodes))"
        "rangeToKill env (dotmeshesToKill ?cl)" us "[]" "runningPodCount ?cl"] d
    by (simp add: deleteCalls_def)
  have tr2: "tr2 = tr1 @ createCalls c img (created (suspendedNodes ?cl)
      (rangeUndotted env (undottedNodes ?cl)))"
    using createPods_calls [of c img "api env" "suspendedNodes ?cl"
        "rangeUndotted env (undottedNodes ?cl)" tr1 log1] cr
    by (simp add: createCalls_def)
  have us: "\<forall>call \<in> set us. isNodesUpdate call"
    using labelNodes_calls [of "api env" "[]" nodes] l by auto
  have iu: "length us \<le> i"
  proof (rule ccontr)
    assume "\<not> length us \<le> i"
    then have "tr2 ! i \<in> set us" using tr1 tr2 by (simp add: nth_append)
    then show False using us upd P(1) by auto
  qed
  from createPods_logged [OF cr]
  have sub: "set log1 \<subseteq> set log2"
    and late: "\<forall>i err. length tr1 \<le> i \<and> i < length tr2 \<and>
        api env (take i tr2) (tr2 ! i) = Some err \<longrightarrow> err \<in> set log2"
    by blast+
  from deletePods_logged [OF d]
  have early: "\<forall>i err. length us \<le> i \<and> i < length tr1 \<and>
        api env (take i tr1) (tr1 ! i) = Some err \<longrightarrow> err \<in> set log1"
    by blast
  show ?thesis
  proof (cases "i < length tr1")
    case True
    then have "take i tr2 = take i tr1" "tr2 ! i = tr1 ! i" using tr2 by (simp_all add: nth_append)
    then have "api env (take i tr1) (tr1 ! i) = Some err" using ans P(1) by simp
    then have "err \<in> set log1" using early iu True by blast
    then show ?thesis using sub P(2) by auto
  next
    case False
    then have "length tr1 \<le> i" by simp
    moreover have "i < length tr2" using i P(1) by simp
    moreover have "api env (take i tr2) (tr2 ! i) = Some err" using ans P(1) by simp
    ultimately have "err \<in> set log2" using late by blast
    then show ?thesis using P(2) by simp
  qed
qed

lemma process_same_calls:
  assumes "\<forall>tr node. srv tr (NodesUpdate node) = api env tr (NodesUpdate node)"
  shows "calls (process c img (env\<lparr>api := srv\<rparr>)) = calls (process c img env) \<and>
         outcome (process c img (env\<lparr>api := srv\<rparr>)) = outcome (process c img env)"
proof (cases "nodeLister env")
  case (Inl e)
  then show ?thesis by (simp add: process_def)
next
  case (Inr nodes)
  have same: "labelNodes srv [] nodes = labelNodes (api env) [] nodes"
    using assms by (rule labelNodes_same_answers)
  obtain r us where l: "labelNodes (api env) [] nodes = (r, us)"
    by (cases "labelNodes (api env) [] nodes")
  show ?thesis
  proof (cases r)
    case (Some stop)
    then show ?thesis using Inr same l by (simp add: process_def)
  next
    case None
    show ?thesis
    proof (cases "podLister env")
      case (Inl e)
      then show ?thesis using Inr same l None by (simp add: process_def)
    next
      case pods: (Inr pods)
      have "process c img (env\<lparr>api := srv\<rparr>) = reconcile c img (env\<lparr>api := srv\<rparr>) nodes pods us"
        using Inr same l None pods by (simp add: process_def)
      moreover have "process c img env = reconcile c img env nodes pods us"
        using Inr l None pods by (simp add: process_def)
      ultimately show ?thesis by (simp add: reconcile_calls reconcile_outcome)
    qed
  qed
qed

text \<open>
  Claim C6. When a node update that the pass issued fails, the pass returns that error,
  the failed update is its last call, all its calls are node updates (no delete, no
  create) and nothing is logged. In a pass that returns nil, every failed delete or create
  is logged. Which calls a pass issues, and how it ends, does not depend on the answers to
  its deletes and creates: after a failure the pass goes on with the remaining pods.
\<close>

theorem label_failure_aborts:
  "(\<forall>i < length (calls (process c img env)).
      isNodesUpdate (calls (process c img env) ! i) \<and>
      api env (take i (calls (process c img env))) (calls (process c img env) ! i) = Some err \<longrightarrow>
        outcome (process c img env) = Returned (Some err) \<and>
        Suc i = length (calls (process c img env)) \<and>
        (\<forall>call \<in> set (calls (process c img env)). isNodesUpdate call) \<and>
        logged (process c img env) = []) \<and>
   (outcome (process c img env) = Returned None \<longrightarrow>
      (\<forall>i < length (calls (process c img env)).
         \<not> isNodesUpdate (calls (process c img env) ! i) \<and>
         api env (take i (calls (process c img env))) (calls (process c img env) ! i) = Some err \<longrightarrow>
           err \<in> set (logged (process c img env)))) \<and>
   ((\<forall>tr node. srv tr (NodesUpdate node) = api env tr (NodesUpdate node)) \<longrightarrow>
      calls (process c img (env\<lparr>api := srv\<rparr>)) = calls (process c img env) \<and>
      outcome (process c img (env\<lparr>api := srv\<rparr>)) = outcome (process c img env))"
  using process_update_failure [of _ c img env err] process_failure_logged [of c img env _ err]
    process_same_calls [of srv env c img]
  by blast

text \<open>
  The theorem at a cluster whose API refuses every node update, and at one whose API
  refuses every delete and create: there both deletes are issued and the error is logged.
\<close>

theorem label_failure_aborts_witness:
  "calls (process defaultController ''new''
     ((exampleCluster [exampleNode ''n1'' (Some Map.empty), labelledNode ''n2'']
         [observedPod ''old'' ''n2'' ''Pending''])\<lparr>api := refusing isNodesUpdate\<rparr>)) =
     [NodesUpdate (labelledNode ''n1'')] \<and>
   outcome (process defaultController ''new''
     ((exampleCluster [exampleNode ''n1'' (Some Map.empty), labelledNode ''n2'']
         [observedPod ''old'' ''n2'' ''Pending''])\<lparr>api := refusing isNodesUpdate\<rparr>)) =
     Returned (Some (Error ''refused'')) \<and>
   calls (process defaultController ''new''
     ((exampleCluster [labelledNode ''n1'', labelledNode ''n2'']
         [observedPod ''old'' ''n1'' ''Pending'', observedPod ''old'' ''n2'' ''Pending''])
        \<lparr>api := refusing (\<lambda>call. \<not> isNodesUpdate call)\<rparr>)) =
     [PodsDelete ''dotmesh-n2'' DeletePropagationBackground,
      PodsDelete ''dotmesh-n1'' DeletePropagationBackground] \<and>
   outcome (process defaultController ''new''
     ((exampleCluster [labelledNode ''n1'', labelledNode ''n2'']
         [observedPod ''old'' ''n1'' ''Pending'', observedPod ''old'' ''n2'' ''Pending''])
        \<lparr>api := refusing (\<lambda>call. \<not> isNodesUpdate call)\<rparr>)) = Returned None \<and>
   Error ''refused'' \<in> set (logged (process defaultController ''new''
     ((exampleCluster [labelledNode ''n1'', labelledNode ''n2'']
         [observedPod ''old'' ''n1'' ''Pending'', observedPod ''old'' ''n2'' ''Pending''])
        \<lparr>api := refusing (\<lambda>call. \<not> isNodesUpdate call)\<rparr>))) \<and>
   calls (process defaultController ''new''
     ((exampleCluster [labelledNode ''n1'', labelledNode ''n2'']
         [observedPod ''old'' ''n1'' ''Pending'', observedPod ''old'' ''n2'' ''Pending''])
        \<lparr>api := refusing (\<lambda>call. \<not> isNodesUpdate call)\<rparr>\<lparr>api := quietApi\<rparr>)) =
     [PodsDelete ''dotmesh-n2'' DeletePropagationBackground,
      PodsDelete ''dotmesh-n1'' DeletePropagationBackground]"
proof -
  let ?A = "(exampleCluster [exampleNode ''n1'' (Some Map.empty), labelledNode ''n2'']
         [observedPod ''old'' ''n2'' ''Pending''])\<lparr>api := refusing isNodesUpdate\<rparr>"
  let ?B = "(exampleCluster [labelledNode ''n1'', labelledNode ''n2'']
         [observedPod ''old'' ''n1'' ''Pending'', observedPod ''old'' ''n2'' ''Pending''])
        \<lparr>api := refusing (\<lambda>call. \<not> isNodesUpdate call)\<rparr>"
  let ?PA = "process defaultController ''new'' ?A"
  let ?PB = "process defaultController ''new'' ?B"
  have csA: "calls ?PA = [NodesUpdate (labelledNode ''n1'')]"
    by (simp add: example_defs pass_defs refusing_def isNodesUpdate_def)
  have csB: "calls ?PB = [PodsDelete ''dotmesh-n2'' DeletePropagationBackground,
      PodsDelete ''dotmesh-n1'' DeletePropagationBackground]"
    by (simp add: example_defs pass_defs refusing_def isNodesUpdate_def minimum_examples)
  have oB: "outcome ?PB = Returned None"
    by (simp add: example_defs pass_defs refusing_def isNodesUpdate_def minimum_examples)
  have a1: "0 < length (calls ?PA)" by (simp add: csA)
  have a2: "isNodesUpdate (calls ?PA ! 0) \<and>
      api ?A (take 0 (calls ?PA)) (calls ?PA ! 0) = Some (Error ''refused'')"
    unfolding csA by (simp add: exampleCluster_def refusing_def isNodesUpdate_def)
  from label_failure_aborts [where c = defaultController and img = "''new''" and env = ?A
      and err = "Error ''refused''"] a1 a2
  have oA: "outcome ?PA = Returned (Some (Error ''refused''))" by blast
  have b1: "0 < length (calls ?PB)" by (simp add: csB)
  have b2: "\<not> isNodesUpdate (calls ?PB ! 0) \<and>
      api ?B (take 0 (calls ?PB)) (calls ?PB ! 0) = Some (Error ''refused'')"
    unfolding csB by (simp add: exampleCluster_def refusing_def isNodesUpdate_def)
  from label_failure_aborts [where c = defaultController and img = "''new''" and env = ?B
      and err = "Error ''refused''"] oB b1 b2
  have lB: "Error ''refused'' \<in> set (logged ?PB)" by blast
  have b3: "\<forall>tr node. quietApi tr (NodesUpdate node) = api ?B tr (NodesUpdate node)"
    by (simp add: exampleCluster_def refusing_def isNodesUpdate_def quietApi_def)
  from label_failure_aborts [where c = defaultController and img = "''new''" and env = ?B
      and srv = quietApi] b3
  have "calls (process defaultController ''new'' (?B\<lparr>api := quietApi\<rparr>)) = calls ?PB" by blast
  with csA oA csB oB lB show ?thesis by simp
qed

end
